theory Spec2Isabelle
  imports Complex_Main "HOL-Library.Word" "HOL-Library.Char_ord" "HOL-Library.List_Lexorder"
    "HOL-Library.Product_Lexorder" "HOL-Library.Multiset"
begin

text \<open>
  StillOpen: the client of the place prediction service (lib/api.ts and the React
  components that call it), modelled as functions over JavaScript strings, the state
  of a component and the answers of the network; and the prediction engine behind
  the service, as the specification describes it.
\<close>

section \<open>JavaScript strings\<close>

text \<open>
  A JavaScript string is a sequence of 16-bit code units; \<open>length\<close> counts code
  units. A literal of the source is written \<open>js ''...''\<close>.
\<close>

type_synonym code_unit = "16 word"
type_synonym jsstring = "code_unit list"

definition js :: "string \<Rightarrow> jsstring" where
  "js s = map of_char s"

text \<open>
  \<open>String.prototype.trim\<close> removes the WhiteSpace and LineTerminator code points of
  ECMA-262 from both ends: TAB, LF, VT, FF, CR, SP, NBSP, U+1680, U+2000..U+200A,
  U+2028, U+2029, U+202F, U+205F, U+3000 and U+FEFF.
\<close>

definition isWhiteSpace :: "code_unit \<Rightarrow> bool" where
  "isWhiteSpace c =
     (c \<in> {0x09, 0x0A, 0x0B, 0x0C, 0x0D, 0x20, 0xA0, 0x1680,
            0x2028, 0x2029, 0x202F, 0x205F, 0x3000, 0xFEFF}
      \<or> (0x2000 \<le> c \<and> c \<le> 0x200A))"

definition trim :: "jsstring \<Rightarrow> jsstring" where
  "trim s = rev (dropWhile isWhiteSpace (rev (dropWhile isWhiteSpace s)))"

text \<open>
  \<open>String.prototype.toLowerCase\<close> on the Basic Latin letters: \<open>A\<close>..\<open>Z\<close> go to
  \<open>a\<close>..\<open>z\<close>, every other code unit is kept. No code point outside Basic Latin
  lowercases to one of the letters of \<open>open\<close> or \<open>closed\<close>, the only strings the
  components compare a lowercased status with.
\<close>

definition isAsciiUpper :: "code_unit \<Rightarrow> bool" where
  "isAsciiUpper c = (0x41 \<le> c \<and> c \<le> 0x5A)"

definition toLowerCase :: "jsstring \<Rightarrow> jsstring" where
  "toLowerCase s = map (\<lambda>c. if isAsciiUpper c then c + 0x20 else c) s"

section \<open>URI component encoding (ECMA-262, Encode and Decode)\<close>

datatype exn =
    URIError
  | FetchRejected
  | SyntaxError
  | Error jsstring

text \<open>The unescaped set of \<open>encodeURIComponent\<close>: letters, digits and \<open>-_.!~*'()\<close>.\<close>

definition uriUnescaped :: "code_unit \<Rightarrow> bool" where
  "uriUnescaped c =
     (let u = unat c in
        (0x41 \<le> u \<and> u \<le> 0x5A) \<or> (0x61 \<le> u \<and> u \<le> 0x7A) \<or> (0x30 \<le> u \<and> u \<le> 0x39)
        \<or> u \<in> {0x2D, 0x5F, 0x2E, 0x21, 0x7E, 0x2A, 0x27, 0x28, 0x29})"

definition isLeadSurrogate :: "code_unit \<Rightarrow> bool" where
  "isLeadSurrogate c = (0xD800 \<le> unat c \<and> unat c \<le> 0xDBFF)"

definition isTrailSurrogate :: "code_unit \<Rightarrow> bool" where
  "isTrailSurrogate c = (0xDC00 \<le> unat c \<and> unat c \<le> 0xDFFF)"

definition UTF16SurrogatePairToCodePoint :: "code_unit \<Rightarrow> code_unit \<Rightarrow> nat" where
  "UTF16SurrogatePairToCodePoint lead trail =
     (unat lead - 0xD800) * 0x400 + (unat trail - 0xDC00) + 0x10000"

definition UTF16EncodeCodePoint :: "nat \<Rightarrow> jsstring" where
  "UTF16EncodeCodePoint cp =
     (if cp \<le> 0xFFFF then [of_nat cp]
      else [of_nat ((cp - 0x10000) div 0x400 + 0xD800),
            of_nat ((cp - 0x10000) mod 0x400 + 0xDC00)])"

text \<open>The octets of the UTF-8 encoding of a code point.\<close>

definition utf8_octets :: "nat \<Rightarrow> nat list" where
  "utf8_octets cp =
     (if cp < 0x80 then [cp]
      else if cp < 0x800 then [0xC0 + cp div 0x40, 0x80 + cp mod 0x40]
      else if cp < 0x10000 then
        [0xE0 + cp div 0x1000, 0x80 + (cp div 0x40) mod 0x40, 0x80 + cp mod 0x40]
      else
        [0xF0 + cp div 0x40000, 0x80 + (cp div 0x1000) mod 0x40,
         0x80 + (cp div 0x40) mod 0x40, 0x80 + cp mod 0x40])"

definition hexDigit :: "nat \<Rightarrow> code_unit" where
  "hexDigit n = (if n < 10 then of_nat (0x30 + n) else of_nat (0x41 + (n - 10)))"

definition percentEncode :: "nat \<Rightarrow> jsstring" where
  "percentEncode octet = [0x25, hexDigit (octet div 16), hexDigit (octet mod 16)]"

text \<open>
  \<open>encodeURIComponent\<close>: an unescaped code unit is copied; any other code point is
  written as the percent-escapes of its UTF-8 octets; an unpaired surrogate throws
  \<open>URIError\<close>.
\<close>

fun encodeURIComponent :: "jsstring \<Rightarrow> exn + jsstring" where
  "encodeURIComponent [] = Inr []"
| "encodeURIComponent (c # cs) =
     (if uriUnescaped c then
        (case encodeURIComponent cs of Inl e \<Rightarrow> Inl e | Inr r \<Rightarrow> Inr (c # r))
      else if \<not> isLeadSurrogate c \<and> \<not> isTrailSurrogate c then
        (case encodeURIComponent cs of
           Inl e \<Rightarrow> Inl e
         | Inr r \<Rightarrow> Inr (concat (map percentEncode (utf8_octets (unat c))) @ r))
      else if isTrailSurrogate c then Inl URIError
      else
        (case cs of
           [] \<Rightarrow> Inl URIError
         | d # ds \<Rightarrow>
             if \<not> isTrailSurrogate d then Inl URIError
             else
               (case encodeURIComponent ds of
                  Inl e \<Rightarrow> Inl e
                | Inr r \<Rightarrow>
                    Inr (concat (map percentEncode
                          (utf8_octets (UTF16SurrogatePairToCodePoint c d))) @ r))))"

definition hexValue :: "code_unit \<Rightarrow> nat option" where
  "hexValue c =
     (let u = unat c in
        if 0x30 \<le> u \<and> u \<le> 0x39 then Some (u - 0x30)
        else if 0x41 \<le> u \<and> u \<le> 0x46 then Some (u - 0x41 + 10)
        else if 0x61 \<le> u \<and> u \<le> 0x66 then Some (u - 0x61 + 10)
        else None)"

text \<open>One escape \<open>%XY\<close> at the head of a string: its octet and the rest.\<close>

fun readEscape :: "jsstring \<Rightarrow> (nat \<times> jsstring) option" where
  "readEscape (p # x # y # rest) =
     (if p \<noteq> 0x25 then None
      else
        (case (hexValue x, hexValue y) of
           (Some h, Some l) \<Rightarrow> Some (16 * h + l, rest)
         | _ \<Rightarrow> None))"
| "readEscape _ = None"

text \<open>The \<open>m\<close> further escapes of a multi-octet sequence.\<close>

fun readEscapes :: "nat \<Rightarrow> jsstring \<Rightarrow> (nat list \<times> jsstring) option" where
  "readEscapes 0 s = Some ([], s)"
| "readEscapes (Suc m) s =
     (case readEscape s of
        None \<Rightarrow> None
      | Some (b, rest) \<Rightarrow>
          (case readEscapes m rest of
             None \<Rightarrow> None
           | Some (bs, rest') \<Rightarrow> Some (b # bs, rest')))"

definition isContinuation :: "nat \<Rightarrow> bool" where
  "isContinuation b = (0x80 \<le> b \<and> b \<le> 0xBF)"

text \<open>
  The code point of a multi-octet sequence whose lead octet is \<open>b\<close>, if the octets are
  a valid UTF-8 encoding: continuation octets, no overlong form, no surrogate, at most
  U+10FFFF.
\<close>

definition utf8_decode :: "nat \<Rightarrow> nat list \<Rightarrow> nat option" where
  "utf8_decode b bs =
     (if \<not> list_all isContinuation bs then None
      else
        (case bs of
           [b1] \<Rightarrow>
             (let v = (b - 0xC0) * 0x40 + (b1 - 0x80)
              in if 0x80 \<le> v then Some v else None)
         | [b1, b2] \<Rightarrow>
             (let v = (b - 0xE0) * 0x1000 + (b1 - 0x80) * 0x40 + (b2 - 0x80)
              in if 0x800 \<le> v \<and> \<not> (0xD800 \<le> v \<and> v \<le> 0xDFFF) then Some v else None)
         | [b1, b2, b3] \<Rightarrow>
             (let v = (b - 0xF0) * 0x40000 + (b1 - 0x80) * 0x1000 + (b2 - 0x80) * 0x40
                      + (b3 - 0x80)
              in if 0x10000 \<le> v \<and> v \<le> 0x10FFFF then Some v else None)
         | _ \<Rightarrow> None))"

text \<open>
  The number of octets announced by a lead octet (its leading one bits); \<open>None\<close> for
  a continuation octet (one leading bit) and for more than four.
\<close>

definition octetCount :: "nat \<Rightarrow> nat option" where
  "octetCount b =
     (if b < 0x80 then Some 1
      else if b < 0xC0 then None
      else if b < 0xE0 then Some 2
      else if b < 0xF0 then Some 3
      else if b < 0xF8 then Some 4
      else None)"

lemma readEscape_length:
  "readEscape s = Some (b, rest) \<Longrightarrow> length rest < length s"
  by (cases s rule: readEscape.cases) (auto split: if_splits option.splits)

lemma readEscapes_length:
  "readEscapes m s = Some (bs, rest) \<Longrightarrow> length rest \<le> length s"
proof (induction m arbitrary: s bs rest)
  case 0
  then show ?case by simp
next
  case (Suc m)
  then show ?case
    by (fastforce split: option.splits dest: readEscape_length)
qed

text \<open>
  \<open>decodeURIComponent\<close>: a code unit other than \<open>%\<close> is copied; an escape sequence
  is read as UTF-8 and written as the code units of its code point; a malformed
  escape or invalid UTF-8 throws \<open>URIError\<close>.
\<close>

function decodeURIComponent :: "jsstring \<Rightarrow> exn + jsstring" where
  "decodeURIComponent [] = Inr []"
| "decodeURIComponent (c # cs) =
     (if c \<noteq> 0x25 then
        (case decodeURIComponent cs of Inl e \<Rightarrow> Inl e | Inr r \<Rightarrow> Inr (c # r))
      else
        (case readEscape (c # cs) of
           None \<Rightarrow> Inl URIError
         | Some (b, rest) \<Rightarrow>
             (case octetCount b of
                None \<Rightarrow> Inl URIError
              | Some n \<Rightarrow>
                  if n = 1 then
                    (case decodeURIComponent rest of
                       Inl e \<Rightarrow> Inl e
                     | Inr r \<Rightarrow> Inr (of_nat b # r))
                  else
                    (case readEscapes (n - 1) rest of
                       None \<Rightarrow> Inl URIError
                     | Some (bs, rest') \<Rightarrow>
                         (case utf8_decode b bs of
                            None \<Rightarrow> Inl URIError
                          | Some v \<Rightarrow>
                              (case decodeURIComponent rest' of
                                 Inl e \<Rightarrow> Inl e
                               | Inr r \<Rightarrow> Inr (UTF16EncodeCodePoint v @ r)))))))"
  by pat_completeness auto
termination
proof (relation "measure length")
  show "wf (measure length)" by simp
next
  fix c :: code_unit and cs
  show "(cs, c # cs) \<in> measure length" by simp
next
  fix c :: code_unit and cs x2 b rest
  assume "readEscape (c # cs) = Some x2" "(b, rest) = x2"
  then have "readEscape (c # cs) = Some (b, rest)" by simp
  then have "length rest < length (c # cs)" by (rule readEscape_length)
  then show "(rest, c # cs) \<in> measure length" by simp
next
  fix c :: code_unit and cs x2 b rest n x2b bs rest'
  assume "readEscape (c # cs) = Some x2" "(b, rest) = x2"
    and "readEscapes (n - 1) rest = Some x2b" "(bs, rest') = x2b"
  then have "readEscape (c # cs) = Some (b, rest)"
    and "readEscapes (n - 1) rest = Some (bs, rest')" by simp_all
  then have "length rest < length (c # cs)" "length rest' \<le> length rest"
    by (auto dest: readEscape_length readEscapes_length simp del: readEscape.simps)
  then show "(rest', c # cs) \<in> measure length" by simp
qed

text \<open>
  \<open>String.prototype.isWellFormed\<close>: no surrogate code unit stands outside a pair of a
  lead surrogate followed by a trail surrogate.
\<close>

fun isWellFormed :: "jsstring \<Rightarrow> bool" where
  "isWellFormed [] = True"
| "isWellFormed [c] = (\<not> isLeadSurrogate c \<and> \<not> isTrailSurrogate c)"
| "isWellFormed (c # d # ds) =
     (if isLeadSurrogate c then isTrailSurrogate d \<and> isWellFormed ds
      else \<not> isTrailSurrogate c \<and> isWellFormed (d # ds))"

text \<open>The code units an encoded component is made of: the unescaped ones and \<open>%\<close>.\<close>

definition uriSafe :: "code_unit \<Rightarrow> bool" where
  "uriSafe c = (uriUnescaped c \<or> c = 0x25)"

section \<open>The remote service as the client sees it\<close>

text \<open>
  A response of \<open>fetch\<close>: its status code and its body as \<open>res.json()\<close> reads it,
  \<open>None\<close> when the body is not JSON (\<open>res.json()\<close> then rejects with a
  \<open>SyntaxError\<close>). Bodies are typed as the interfaces of the components declare them.
  \<open>res.status\<close> is written \<open>http_status\<close>; \<open>res.ok\<close> is the Fetch standard's: a
  status in the range 200 to 299. A \<open>fetch\<close> that cannot reach the server rejects.
\<close>

datatype 'a response = Response (http_status: nat) (body: "'a option")

datatype 'a fetch_outcome = Rejected | Responded "'a response"

definition ok :: "'a response \<Rightarrow> bool" where
  "ok res = (200 \<le> http_status res \<and> http_status res \<le> 299)"

definition json :: "'a response \<Rightarrow> exn + 'a" where
  "json res = (case body res of None \<Rightarrow> Inl SyntaxError | Some v \<Rightarrow> Inr v)"

text \<open>
  What a request delivers: the parsed body of a response whose status is ok, and
  nothing when \<open>fetch\<close> rejects, the status is not ok or the body is not JSON.
\<close>

definition delivered :: "'a fetch_outcome \<Rightarrow> 'a option" where
  "delivered outcome =
     (case outcome of
        Rejected \<Rightarrow> None
      | Responded res \<Rightarrow> if ok res then body res else None)"

section \<open>lib/api.ts\<close>

text \<open>
  \<open>API_BASE = process.env.NEXT_PUBLIC_API_URL || 'http://localhost:8000'\<close>: the
  default stands in for an unset and for an empty variable.
\<close>

definition API_BASE :: "jsstring option \<Rightarrow> jsstring" where
  "API_BASE env =
     (case env of
        None \<Rightarrow> js ''http://localhost:8000''
      | Some v \<Rightarrow> if v = [] then js ''http://localhost:8000'' else v)"

text \<open>
  The functions of \<open>api.ts\<close> take the environment variable and the network (what
  \<open>fetch\<close> answers to a URL) as arguments, and return their result (\<open>Inl\<close> a thrown
  exception, that is a rejected promise) together with the URLs they requested.
\<close>

definition searchPlaces ::
  "jsstring option \<Rightarrow> (jsstring \<Rightarrow> 'a fetch_outcome) \<Rightarrow> jsstring \<Rightarrow> (exn + 'a) \<times> jsstring list"
where
  "searchPlaces env fetch query =
     (case encodeURIComponent query of
        Inl e \<Rightarrow> (Inl e, [])
      | Inr q \<Rightarrow>
          (let url = API_BASE env @ js ''/search?q='' @ q in
             (case fetch url of
                Rejected \<Rightarrow> (Inl FetchRejected, [url])
              | Responded res \<Rightarrow>
                  if \<not> ok res then (Inl (Error (js ''Failed to search places'')), [url])
                  else (json res, [url]))))"

definition getPlaceDetails ::
  "jsstring option \<Rightarrow> (jsstring \<Rightarrow> 'a option fetch_outcome) \<Rightarrow> jsstring
     \<Rightarrow> (exn + 'a option) \<times> jsstring list"
where
  "getPlaceDetails env fetch ident =
     (let url = API_BASE env @ js ''/place/'' @ ident in
        (case fetch url of
           Rejected \<Rightarrow> (Inl FetchRejected, [url])
         | Responded res \<Rightarrow>
             if \<not> ok res then
               (if http_status res = 404 then (Inr None, [url])
                else (Inl (Error (js ''Failed to get place details'')), [url]))
             else (json res, [url])))"

section \<open>The parameters of a request URL\<close>

text \<open>
  What the receiver of a request reads from its URL (WHATWG URL): the query stands
  between the first \<open>?\<close> and the fragment, which starts at the first \<open>#\<close>; its
  parameters are separated by \<open>&\<close>, and the name of a parameter ends at its first
  \<open>=\<close>. \<open>searchParam\<close> is the value of the first parameter of a name, still
  percent-encoded.
\<close>

fun splitOn :: "'a \<Rightarrow> 'a list \<Rightarrow> 'a list list" where
  "splitOn sep [] = [[]]"
| "splitOn sep (x # xs) =
     (if x = sep then [] # splitOn sep xs
      else (case splitOn sep xs of [] \<Rightarrow> [[x]] | p # ps \<Rightarrow> (x # p) # ps))"

definition urlQuery :: "jsstring \<Rightarrow> jsstring option" where
  "urlQuery url =
     (let u = takeWhile (\<lambda>c. c \<noteq> 0x23) url in
        if 0x3F \<in> set u then Some (tl (dropWhile (\<lambda>c. c \<noteq> 0x3F) u)) else None)"

definition searchParam :: "jsstring \<Rightarrow> jsstring \<Rightarrow> jsstring option" where
  "searchParam key url =
     (case urlQuery url of
        None \<Rightarrow> None
      | Some q \<Rightarrow>
          (case filter (\<lambda>p. takeWhile (\<lambda>c. c \<noteq> 0x3D) p = key) (splitOn 0x26 q) of
             [] \<Rightarrow> None
           | p # ps \<Rightarrow> Some (drop (length key + 1) p)))"

section \<open>The components\<close>

text \<open>
  The interfaces \<open>SearchResultType\<close> (SearchBar.tsx, SearchResults.tsx) and
  \<open>PlaceDetail\<close> (ResultCard.tsx), which has the same fields and \<open>explanation\<close>.
  \<open>ResultCard\<close> tests \<open>data.explanation\<close> for truthiness before it reads its
  length, so the field may be absent (\<open>None\<close>). The field \<open>id\<close> is written \<open>id'\<close>.
\<close>

record SearchResultType =
  id' :: jsstring
  name :: jsstring
  address :: jsstring
  status :: jsstring
  confidence :: real

record PlaceDetail = SearchResultType +
  explanation :: "jsstring list option"

subsection \<open>StatusBadge\<close>

datatype badge = OpenBadge | ClosedBadge | UnknownBadge

definition StatusBadge :: "jsstring \<Rightarrow> badge" where
  "StatusBadge st =
     (let isReady = toLowerCase st in
        if isReady = js ''open'' then OpenBadge
        else if isReady = js ''closed'' then ClosedBadge
        else UnknownBadge)"

subsection \<open>ResultCard\<close>

text \<open>
  What \<open>ResultCard\<close> renders: the colour and icon of the header, name, address, the
  status text, the confidence line (its number \<open>data.confidence * 100\<close>, before
  \<open>toFixed(0)\<close> formats it) when there is one, and the signal analysis.
\<close>

datatype tone = Emerald | Rose | Gray

datatype signal_analysis = SignalList "jsstring list" | NoExplanation jsstring

record ResultCard_view =
  card_tone :: tone
  card_name :: jsstring
  card_address :: jsstring
  card_status :: jsstring
  card_confidence :: "real option"
  card_signals :: signal_analysis

definition ResultCard :: "PlaceDetail \<Rightarrow> ResultCard_view" where
  "ResultCard data =
     (let isReady = toLowerCase (status data);
          isOpen = (isReady = js ''open'');
          isClosed = (isReady = js ''closed'')
      in \<lparr> card_tone = (if isOpen then Emerald else if isClosed then Rose else Gray),
           card_name = name data,
           card_address = address data,
           card_status = status data,
           card_confidence =
             (if isOpen \<or> isClosed then Some (confidence data * 100) else None),
           card_signals =
             (case explanation data of
                None \<Rightarrow>
                  NoExplanation
                    (js ''No detailed explanation available for this prediction.'')
              | Some items \<Rightarrow>
                  if length items > 0 then SignalList items
                  else
                    NoExplanation
                      (js ''No detailed explanation available for this prediction.'')) \<rparr>)"

subsection \<open>PlacePage\<close>

datatype PlacePage_view =
    FailedToLoad jsstring
  | PlaceNotFound jsstring
  | PlaceResult ResultCard_view

text \<open>
  The \<open>try\<close> block sets \<open>place\<close>, the \<open>catch\<close> block sets \<open>fetchError\<close>; the
  three returns follow.
\<close>

definition PlacePage ::
  "jsstring option \<Rightarrow> (jsstring \<Rightarrow> PlaceDetail option fetch_outcome) \<Rightarrow> jsstring
     \<Rightarrow> PlacePage_view"
where
  "PlacePage env fetch ident =
     (let (place, fetchError) =
            (case fst (getPlaceDetails env fetch ident) of
               Inr p \<Rightarrow> (p, False)
             | Inl e \<Rightarrow> (None, True))
      in
        if fetchError then
          FailedToLoad (js ''Failed to load place details. The API might be offline.'')
        else
          (case place of
             None \<Rightarrow> PlaceNotFound (js ''Place not found'')
           | Some data \<Rightarrow> PlaceResult (ResultCard data)))"

subsection \<open>The rows of SearchResults and of the dropdown of SearchBar\<close>

text \<open>
  A row shows name, address, the badge and, under the condition of the source, the
  confidence line; it links to \<open>/place/${id}\<close>.
\<close>

record item_view =
  item_name :: jsstring
  item_address :: jsstring
  item_badge :: badge
  item_confidence :: "real option"
  item_target :: jsstring

definition SearchResults_item :: "SearchResultType \<Rightarrow> item_view" where
  "SearchResults_item res =
     \<lparr> item_name = name res,
       item_address = address res,
       item_badge = StatusBadge (status res),
       item_confidence =
         (if status res = js ''open'' \<or> status res = js ''closed''
          then Some (confidence res * 100) else None),
       item_target = js ''/place/'' @ id' res \<rparr>"

definition SearchBar_item :: "SearchResultType \<Rightarrow> item_view" where
  "SearchBar_item result =
     \<lparr> item_name = name result,
       item_address = address result,
       item_badge = StatusBadge (status result),
       item_confidence =
         (if status result = js ''open'' \<or> status result = js ''closed''
          then Some (confidence result * 100) else None),
       item_target = js ''/place/'' @ id' result \<rparr>"

subsection \<open>SearchResults\<close>

text \<open>The state of the two searching components: \<open>results\<close> and \<open>loading\<close>.\<close>

record search_state =
  results :: "SearchResultType list"
  loading :: bool

datatype SearchResults_view =
    Spinner
  | NoResultsFound jsstring
  | RendersNothing
  | ResultList "item_view list"

definition SearchResults :: "jsstring \<Rightarrow> search_state \<Rightarrow> SearchResults_view" where
  "SearchResults query s =
     (if loading s then Spinner
      else if length (results s) = 0 \<and> query \<noteq> [] then NoResultsFound query
      else if length (results s) = 0 \<and> query = [] then RendersNothing
      else ResultList (map SearchResults_item (results s)))"

text \<open>
  The effect of \<open>SearchResults\<close> on its query, run to the end with the component still
  mounted (\<open>active\<close> true). For an empty query it clears the results. Otherwise it
  defers \<open>setLoading(true)\<close> with \<open>setTimeout(..., 0)\<close> and calls \<open>searchPlaces\<close>:
  \<open>then\<close> stores the data, \<open>catch\<close> logs the error, \<open>finally\<close> calls
  \<open>setLoading(false)\<close>. The two calls of \<open>setLoading\<close> run in the order in which
  the timer fires and the promise settles, and the later one stands:
  \<open>settledBeforeTimer\<close> says that the promise of \<open>searchPlaces\<close> settled before the
  timer callback ran, which leaves \<open>loading\<close> true. That order is the environment's
  (a \<open>fetch\<close> that refuses its URL returns a promise that is already rejected),
  except for a \<open>URIError\<close>: it is thrown before the first \<open>await\<close> of
  \<open>searchPlaces\<close>, so \<open>finally\<close> runs as a microtask, always before the timer.
\<close>

definition SearchResults_effect ::
  "jsstring option \<Rightarrow> (jsstring \<Rightarrow> SearchResultType list fetch_outcome) \<Rightarrow> bool \<Rightarrow> jsstring
     \<Rightarrow> search_state \<Rightarrow> search_state \<times> jsstring list"
where
  "SearchResults_effect env fetch settledBeforeTimer query s =
     (if query = [] then (s\<lparr>results := []\<rparr>, [])
      else
        (case searchPlaces env fetch query of
           (Inr data, urls) \<Rightarrow> (s\<lparr>results := data, loading := settledBeforeTimer\<rparr>, urls)
         | (Inl URIError, urls) \<Rightarrow> (s\<lparr>loading := True\<rparr>, urls)
         | (Inl e, urls) \<Rightarrow> (s\<lparr>loading := settledBeforeTimer\<rparr>, urls)))"

subsection \<open>SearchBar\<close>

text \<open>
  The state of \<open>SearchBar\<close>; \<open>timeoutId\<close> is the pending debounce timer, with the
  query its callback closed over.
\<close>

record SearchBar_state = search_state +
  query :: jsstring
  showDropdown :: bool
  timeoutId :: "jsstring option"

text \<open>
  The effect on \<open>[query]\<close>: the cleanup of the previous run clears its timer; then a
  query shorter than two code units after trimming clears the results and returns,
  and any other query starts the 300 ms timer.
\<close>

definition SearchBar_effect :: "SearchBar_state \<Rightarrow> SearchBar_state" where
  "SearchBar_effect s =
     (let s0 = s\<lparr>timeoutId := None\<rparr> in
        if length (trim (query s0)) < 2 then s0\<lparr>results := []\<rparr>
        else s0\<lparr>timeoutId := Some (query s0)\<rparr>)"

text \<open>\<open>onChange\<close> of the input; the effect runs when the query has changed.\<close>

definition SearchBar_onChange :: "jsstring \<Rightarrow> SearchBar_state \<Rightarrow> SearchBar_state" where
  "SearchBar_onChange v s =
     (let s1 = s\<lparr>query := v, showDropdown := (if length v > 0 then True else showDropdown s)\<rparr>
      in if v = query s then s1 else SearchBar_effect s1)"

text \<open>The callback of the timer: the only place where \<open>SearchBar\<close> calls the service.\<close>

definition SearchBar_timeout ::
  "jsstring option \<Rightarrow> (jsstring \<Rightarrow> SearchResultType list fetch_outcome) \<Rightarrow> SearchBar_state
     \<Rightarrow> SearchBar_state \<times> jsstring list"
where
  "SearchBar_timeout env fetch s =
     (case timeoutId s of
        None \<Rightarrow> (s, [])
      | Some q \<Rightarrow>
          (let s1 = s\<lparr>timeoutId := None, loading := True\<rparr> in
             (case searchPlaces env fetch q of
                (Inr data, urls) \<Rightarrow>
                  (s1\<lparr>results := data, showDropdown := True, loading := False\<rparr>, urls)
              | (Inl e, urls) \<Rightarrow> (s1\<lparr>loading := False\<rparr>, urls))))"

record SearchBar_view =
  input_value :: jsstring
  busy :: bool
  dropdown :: "item_view list option"

definition SearchBar :: "SearchBar_state \<Rightarrow> SearchBar_view" where
  "SearchBar s =
     \<lparr> input_value = query s,
       busy = loading s,
       dropdown =
         (if showDropdown s \<and> length (results s) > 0
          then Some (map SearchBar_item (results s)) else None) \<rparr>"

section \<open>The Place Intelligence Engine of the specification\<close>

text \<open>
  The engine (backend/app: features.py, predict.py, search.py) is not among the
  sources. The definitions of this section follow the words of the specification;
  what it leaves open (the feature schema, the classifier, the templates, the
  relevance score, the cap and the thresholds) is a parameter.
\<close>

text \<open>
  Modelled from the spec: a value of the metadata bag of section 3 (scalar, boolean or
  string); the catalog is not among the sources.
\<close>

datatype meta_value = MetaBool bool | MetaNumber real | MetaString string

text \<open>
  Modelled from the spec: the Place of section 3 (the catalog row; the store itself is
  not among the sources). The location is optional, the metadata an open mapping.
\<close>

record Place =
  place_id :: string
  place_name :: string
  category :: string
  location :: "(real \<times> real) option"
  metadata :: "string \<rightharpoonup> meta_value"
  last_updated :: int

text \<open>
  Modelled from the spec: one named feature of the fixed-order schema of section 3
  (features.py is not among the sources): how it is read from a Place, \<open>None\<close> when
  the metadata it needs is absent, and its documented sentinel.
\<close>

record feature =
  feature_name :: string
  read_feature :: "Place \<Rightarrow> real option"
  sentinel :: real

text \<open>
  Modelled from the spec: \<open>extract\<close> of section 4.1 (features.py is not among the
  sources), here \<open>extract_features\<close>: the features in schema order, the sentinel in
  place of an absent value.
\<close>

definition extract_features :: "feature list \<Rightarrow> Place \<Rightarrow> real list" where
  "extract_features schema place =
     map (\<lambda>f. case read_feature f place of None \<Rightarrow> sentinel f | Some v \<Rightarrow> v) schema"

text \<open>
  Modelled from the spec: the configuration of the Explanation Generator of section
  4.3 (predict.py is not among the sources): the cap on the number of strings, the
  negligible magnitude, the template of each feature, the generic string, and the
  string that explains an unavailable model (section 4.5).
\<close>

record explain_config =
  cap :: nat
  negligible :: real
  template :: "string \<Rightarrow> Place \<Rightarrow> string"
  generic :: string
  unavailable :: string

text \<open>
  Modelled from the spec: \<open>explain\<close> of section 4.3 (predict.py is not among the
  sources). Contributions are ranked by absolute magnitude, descending, ties in
  declaration order (\<open>sort_key\<close> is stable); the top \<open>cap\<close> are rendered through
  their templates; empty or all-negligible contributions give the generic string.
\<close>

definition explain ::
  "explain_config \<Rightarrow> Place \<Rightarrow> real list \<Rightarrow> (string \<times> real) list \<Rightarrow> string list"
where
  "explain cfg place vector contributions =
     (if contributions = [] \<or> list_all (\<lambda>(f, m). \<bar>m\<bar> < negligible cfg) contributions
      then [generic cfg]
      else
        map (\<lambda>(f, m). template cfg f place)
          (take (cap cfg) (sort_key (\<lambda>(f, m). - \<bar>m\<bar>) contributions)))"

text \<open>
  Modelled from the spec: the label of the classifier (section 4.2), the status of a
  prediction (section 3) and the condition with which \<open>predictById\<close> fails (sections
  4.5 and 7); predict.py is not among the sources.
\<close>

datatype label = LabelOpen | LabelClosed

datatype Status = OPEN | CLOSED | UNKNOWN

datatype condition = NotFound

text \<open>
  Modelled from the spec: the PredictionResult of section 3; the confidence is absent
  when the status is \<open>UNKNOWN\<close> (section 8).
\<close>

record PredictionResult =
  result_place_id :: string
  result_status :: Status
  result_confidence :: "real option"
  result_explanation :: "string list"

text \<open>
  Modelled from the spec: \<open>predictById\<close> of section 4.5 (predict.py is not among the
  sources): fetch, extract, classify, explain, assemble. The classifier is \<open>None\<close>
  when the adapter has not been initialised; an initialised one returns the label,
  the probability and the contributions of a vector (section 4.2).
\<close>

definition predictById ::
  "(string \<rightharpoonup> Place) \<Rightarrow> feature list
     \<Rightarrow> (real list \<Rightarrow> label \<times> real \<times> (string \<times> real) list) option
     \<Rightarrow> explain_config \<Rightarrow> string \<Rightarrow> condition + PredictionResult"
where
  "predictById getById schema model cfg pid =
     (case getById pid of
        None \<Rightarrow> Inl NotFound
      | Some place \<Rightarrow>
          (case model of
             None \<Rightarrow>
               Inr \<lparr> result_place_id = pid, result_status = UNKNOWN,
                     result_confidence = None, result_explanation = [unavailable cfg] \<rparr>
           | Some predict \<Rightarrow>
               (let vector = extract_features schema place;
                    (l, probability, contributions) = predict vector
                in Inr \<lparr> result_place_id = pid,
                         result_status = (case l of LabelOpen \<Rightarrow> OPEN | LabelClosed \<Rightarrow> CLOSED),
                         result_confidence = Some probability,
                         result_explanation = explain cfg place vector contributions \<rparr>)))"

text \<open>
  Modelled from the spec: the ranking of section 4.4, step 3 (search.py is not among
  the sources). A candidate is a Place with its relevance score. The key orders by
  score descending, then \<open>last_updated\<close> descending, then \<open>place_id\<close> ascending;
  pairs are compared lexicographically.
\<close>

definition rank_key :: "real \<times> Place \<Rightarrow> real \<times> int \<times> string" where
  "rank_key c = (- fst c, - last_updated (snd c), place_id (snd c))"

definition rank :: "(real \<times> Place) list \<Rightarrow> (real \<times> Place) list" where
  "rank candidates = sort_key rank_key candidates"

text \<open>
  Modelled from the spec: the order in which a candidate stands before another
  (section 4.4, step 3), written out.
\<close>

definition ranks_before :: "real \<times> Place \<Rightarrow> real \<times> Place \<Rightarrow> bool" where
  "ranks_before a b =
     (fst a > fst b
      \<or> (fst a = fst b
          \<and> (last_updated (snd a) > last_updated (snd b)
              \<or> (last_updated (snd a) = last_updated (snd b)
                  \<and> place_id (snd a) \<le> place_id (snd b)))))"

text \<open>
  Modelled from the spec: \<open>search\<close> of section 4.4 (search.py is not among the
  sources): a query shorter than two characters after trimming spaces gives the
  empty sequence; otherwise the candidates of the store are scored, ranked and cut
  at \<open>limit\<close>. The retrieval and the relevance score are parameters.
\<close>

definition search ::
  "(string \<Rightarrow> Place list) \<Rightarrow> (string \<Rightarrow> Place \<Rightarrow> real) \<Rightarrow> string \<Rightarrow> nat \<Rightarrow> Place list"
where
  "search findBySimilarName relevance queryText limit =
     (let trimmed = rev (dropWhile (\<lambda>c. c = CHR '' '') (rev (dropWhile (\<lambda>c. c = CHR '' '') queryText)))
      in if length trimmed < 2 then []
         else
           map snd (take limit
             (rank (map (\<lambda>p. (relevance queryText p, p)) (findBySimilarName queryText)))))"

section \<open>Encoding and decoding a URI component\<close>

subsection \<open>Code units, hexadecimal digits and escapes\<close>

lemma unat16_less: "unat (c :: code_unit) < 65536"
  using unsigned_less [of c, where 'a = nat] by simp

lemma unat_hexDigit:
  "n < 16 \<Longrightarrow> unat (hexDigit n) = (if n < 10 then 0x30 + n else 0x37 + n)"
  unfolding hexDigit_def
  by (simp only: unat_of_nat split: if_splits) simp

lemma hexValue_hexDigit: "n < 16 \<Longrightarrow> hexValue (hexDigit n) = Some n"
  by (simp add: hexValue_def unat_hexDigit Let_def)

lemma uriUnescaped_hexDigit: "n < 16 \<Longrightarrow> uriUnescaped (hexDigit n)"
  by (simp add: uriUnescaped_def unat_hexDigit Let_def)

lemma readEscape_percentEncode:
  assumes "b < 256"
  shows "readEscape (percentEncode b @ rest) = Some (b, rest)"
proof -
  from assms have "b div 16 < 16" "b mod 16 < 16" by auto
  then show ?thesis
    by (simp add: percentEncode_def hexValue_hexDigit)
qed

lemma readEscapes_percentEncode:
  "list_all (\<lambda>b. b < 256) bs \<Longrightarrow>
   readEscapes (length bs) (concat (map percentEncode bs) @ r) = Some (bs, r)"
proof (induction bs)
  case Nil
  then show ?case by simp
next
  case (Cons b bs)
  then have "readEscape (percentEncode b @ (concat (map percentEncode bs) @ r))
      = Some (b, concat (map percentEncode bs) @ r)"
    by (simp add: readEscape_percentEncode)
  with Cons show ?case by simp
qed

lemma uriUnescaped_not_percent: "uriUnescaped c \<Longrightarrow> c \<noteq> 0x25"
  by (auto simp: uriUnescaped_def Let_def)

lemma uriUnescaped_not_surrogate:
  "uriUnescaped c \<Longrightarrow> \<not> isLeadSurrogate c \<and> \<not> isTrailSurrogate c"
  by (auto simp: uriUnescaped_def isLeadSurrogate_def isTrailSurrogate_def Let_def)

subsection \<open>Decoding what was percent-encoded\<close>

lemma decode_percentEncode:
  assumes "b < 256"
  shows "decodeURIComponent (percentEncode b @ X) =
     (case octetCount b of
        None \<Rightarrow> Inl URIError
      | Some n \<Rightarrow>
          if n = 1 then
            (case decodeURIComponent X of Inl e \<Rightarrow> Inl e | Inr r \<Rightarrow> Inr (of_nat b # r))
          else
            (case readEscapes (n - 1) X of
               None \<Rightarrow> Inl URIError
             | Some (bs, rest') \<Rightarrow>
                 (case utf8_decode b bs of
                    None \<Rightarrow> Inl URIError
                  | Some v \<Rightarrow>
                      (case decodeURIComponent rest' of
                         Inl e \<Rightarrow> Inl e
                       | Inr r \<Rightarrow> Inr (UTF16EncodeCodePoint v @ r)))))"
proof -
  have e: "readEscape (0x25 # hexDigit (b div 16) # hexDigit (b mod 16) # X) = Some (b, X)"
    using readEscape_percentEncode [OF assms, of X] by (simp add: percentEncode_def)
  show ?thesis
    unfolding percentEncode_def append_Cons append_Nil
    by (subst decodeURIComponent.simps(2)) (simp only: e, simp)
qed

lemma decode_single:
  assumes "b < 0x80"
  shows "decodeURIComponent (concat (map percentEncode [b]) @ r) =
     (case decodeURIComponent r of Inl e \<Rightarrow> Inl e | Inr r' \<Rightarrow> Inr (of_nat b # r'))"
  using assms by (simp add: decode_percentEncode octetCount_def)

lemma decode_sequence:
  assumes "b < 256" and "list_all (\<lambda>b. b < 256) bs"
    and "octetCount b = Some (Suc (length bs))" and "bs \<noteq> []"
    and "utf8_decode b bs = Some v"
  shows "decodeURIComponent (concat (map percentEncode (b # bs)) @ r) =
     (case decodeURIComponent r of
        Inl e \<Rightarrow> Inl e
      | Inr r' \<Rightarrow> Inr (UTF16EncodeCodePoint v @ r'))"
proof -
  have "length bs \<noteq> 0" using assms(4) by simp
  then show ?thesis
    using assms by (simp add: decode_percentEncode readEscapes_percentEncode)
qed

subsection \<open>The octets of a code point, read back\<close>

lemma div4096: "(cp::nat) div 4096 = cp div 64 div 64"
  using div_mult2_eq [of cp 64 64] by simp

lemma div262144: "(cp::nat) div 262144 = cp div 64 div 64 div 64"
  using div_mult2_eq [of cp 64 4096] div_mult2_eq [of "cp div 64" 64 64] by simp

lemma utf8_two:
  assumes "0x80 \<le> cp" "cp < 0x800"
  shows "utf8_octets cp = [0xC0 + cp div 0x40, 0x80 + cp mod 0x40]"
    and "0xC0 + cp div 0x40 < 256"
    and "octetCount (0xC0 + cp div 0x40) = Some 2"
    and "utf8_decode (0xC0 + cp div 0x40) [0x80 + cp mod 0x40] = Some cp"
    and "list_all (\<lambda>b. b < 256) [0x80 + cp mod 0x40]"
proof -
  define d m where "d = cp div 64" and "m = cp mod 64"
  have dm: "d * 64 + m = cp" "m < 64" by (simp_all add: d_def m_def)
  have d: "d < 32" using dm assms by linarith
  show "utf8_octets cp = [0xC0 + cp div 0x40, 0x80 + cp mod 0x40]"
    using assms by (simp add: utf8_octets_def)
  show "0xC0 + cp div 0x40 < 256" using d by (simp add: d_def)
  show "octetCount (0xC0 + cp div 0x40) = Some 2"
    unfolding d_def [symmetric] using d by (simp add: octetCount_def)
  show "utf8_decode (0xC0 + cp div 0x40) [0x80 + cp mod 0x40] = Some cp"
    unfolding d_def [symmetric] m_def [symmetric]
    using d dm assms by (simp add: utf8_decode_def isContinuation_def)
  show "list_all (\<lambda>b. b < 256) [0x80 + cp mod 0x40]"
    unfolding m_def [symmetric] using dm(2) by simp
qed

lemma utf8_three:
  assumes "0x800 \<le> cp" "cp < 0x10000" "\<not> (0xD800 \<le> cp \<and> cp \<le> 0xDFFF)"
  shows "utf8_octets cp =
      [0xE0 + cp div 0x1000, 0x80 + (cp div 0x40) mod 0x40, 0x80 + cp mod 0x40]"
    and "0xE0 + cp div 0x1000 < 256"
    and "octetCount (0xE0 + cp div 0x1000) = Some 3"
    and "utf8_decode (0xE0 + cp div 0x1000)
      [0x80 + (cp div 0x40) mod 0x40, 0x80 + cp mod 0x40] = Some cp"
    and "list_all (\<lambda>b. b < 256) [0x80 + (cp div 0x40) mod 0x40, 0x80 + cp mod 0x40]"
proof -
  define q m d n where "q = cp div 64" and "m = cp mod 64" and "d = q div 64"
    and "n = q mod 64"
  have qm: "q * 64 + m = cp" "m < 64" by (simp_all add: q_def m_def)
  have dn: "d * 64 + n = q" "n < 64" by (simp_all add: d_def n_def)
  have e: "cp div 0x1000 = d" by (simp add: d_def q_def div4096)
  have d: "d < 16" using qm dn assms by linarith
  have v: "d * 4096 + n * 64 + m = cp" using qm dn by linarith
  show "utf8_octets cp =
      [0xE0 + cp div 0x1000, 0x80 + (cp div 0x40) mod 0x40, 0x80 + cp mod 0x40]"
    using assms by (simp add: utf8_octets_def)
  show "0xE0 + cp div 0x1000 < 256" unfolding e using d by simp
  show "octetCount (0xE0 + cp div 0x1000) = Some 3"
    unfolding e using d by (simp add: octetCount_def)
  show "utf8_decode (0xE0 + cp div 0x1000)
      [0x80 + (cp div 0x40) mod 0x40, 0x80 + cp mod 0x40] = Some cp"
    unfolding e q_def [symmetric] n_def [symmetric] m_def [symmetric]
    using d dn(2) qm(2) v assms by (simp add: utf8_decode_def isContinuation_def)
  show "list_all (\<lambda>b. b < 256) [0x80 + (cp div 0x40) mod 0x40, 0x80 + cp mod 0x40]"
    unfolding q_def [symmetric] n_def [symmetric] m_def [symmetric]
    using dn(2) qm(2) by simp
qed

lemma utf8_four:
  assumes "0x10000 \<le> cp" "cp \<le> 0x10FFFF"
  shows "utf8_octets cp = [0xF0 + cp div 0x40000, 0x80 + (cp div 0x1000) mod 0x40,
         0x80 + (cp div 0x40) mod 0x40, 0x80 + cp mod 0x40]"
    and "0xF0 + cp div 0x40000 < 256"
    and "octetCount (0xF0 + cp div 0x40000) = Some 4"
    and "utf8_decode (0xF0 + cp div 0x40000) [0x80 + (cp div 0x1000) mod 0x40,
         0x80 + (cp div 0x40) mod 0x40, 0x80 + cp mod 0x40] = Some cp"
    and "list_all (\<lambda>b. b < 256) [0x80 + (cp div 0x1000) mod 0x40,
         0x80 + (cp div 0x40) mod 0x40, 0x80 + cp mod 0x40]"
proof -
  define q m d n t k where "q = cp div 64" and "m = cp mod 64" and "d = q div 64"
    and "n = q mod 64" and "t = d div 64" and "k = d mod 64"
  have qm: "q * 64 + m = cp" "m < 64" by (simp_all add: q_def m_def)
  have dn: "d * 64 + n = q" "n < 64" by (simp_all add: d_def n_def)
  have tk: "t * 64 + k = d" "k < 64" by (simp_all add: t_def k_def)
  have e1: "cp div 0x40000 = t" by (simp add: t_def d_def q_def div262144)
  have e2: "cp div 0x1000 = d" by (simp add: d_def q_def div4096)
  have t: "t < 5" using qm dn tk assms by linarith
  have v: "t * 262144 + k * 4096 + n * 64 + m = cp" using qm dn tk by linarith
  show "utf8_octets cp = [0xF0 + cp div 0x40000, 0x80 + (cp div 0x1000) mod 0x40,
         0x80 + (cp div 0x40) mod 0x40, 0x80 + cp mod 0x40]"
    using assms by (simp add: utf8_octets_def)
  show "0xF0 + cp div 0x40000 < 256" unfolding e1 using t by simp
  show "octetCount (0xF0 + cp div 0x40000) = Some 4"
    unfolding e1 using t by (simp add: octetCount_def)
  show "utf8_decode (0xF0 + cp div 0x40000) [0x80 + (cp div 0x1000) mod 0x40,
         0x80 + (cp div 0x40) mod 0x40, 0x80 + cp mod 0x40] = Some cp"
    unfolding e1 e2 k_def [symmetric] q_def [symmetric] n_def [symmetric] m_def [symmetric]
    using t tk(2) dn(2) qm(2) v assms by (simp add: utf8_decode_def isContinuation_def)
  show "list_all (\<lambda>b. b < 256) [0x80 + (cp div 0x1000) mod 0x40,
         0x80 + (cp div 0x40) mod 0x40, 0x80 + cp mod 0x40]"
    unfolding e2 k_def [symmetric] q_def [symmetric] n_def [symmetric] m_def [symmetric]
    using tk(2) dn(2) qm(2) by simp
qed

lemma utf8_octets_bytes:
  assumes "cp \<le> 0x10FFFF" "\<not> (0xD800 \<le> cp \<and> cp \<le> 0xDFFF)"
  shows "list_all (\<lambda>b. b < 256) (utf8_octets cp)"
proof -
  consider "cp < 0x80" | "0x80 \<le> cp" "cp < 0x800" | "0x800 \<le> cp" "cp < 0x10000"
    | "0x10000 \<le> cp" by linarith
  then show ?thesis
  proof cases
    case 1
    then show ?thesis by (simp add: utf8_octets_def)
  next
    case 2
    note u = utf8_two [OF 2]
    show ?thesis unfolding u(1) using u(2) u(5) by simp
  next
    case 3
    note u = utf8_three [OF 3 assms(2)]
    show ?thesis unfolding u(1) using u(2) u(5) by simp
  next
    case 4
    note u = utf8_four [OF 4 assms(1)]
    show ?thesis unfolding u(1) using u(2) u(5) by simp
  qed
qed

lemma decode_escaped:
  assumes "cp \<le> 0x10FFFF" "\<not> (0xD800 \<le> cp \<and> cp \<le> 0xDFFF)"
  shows "decodeURIComponent (concat (map percentEncode (utf8_octets cp)) @ r) =
     (case decodeURIComponent r of
        Inl e \<Rightarrow> Inl e
      | Inr r' \<Rightarrow> Inr (UTF16EncodeCodePoint cp @ r'))"
proof -
  consider "cp < 0x80" | "0x80 \<le> cp" "cp < 0x800" | "0x800 \<le> cp" "cp < 0x10000"
    | "0x10000 \<le> cp" by linarith
  then show ?thesis
  proof cases
    case 1
    then have u: "utf8_octets cp = [cp]" "UTF16EncodeCodePoint cp = [of_nat cp]"
      by (simp_all add: utf8_octets_def UTF16EncodeCodePoint_def)
    show ?thesis
      unfolding u using decode_single [OF 1, of r] by (simp cong: sum.case_cong)
  next
    case 2
    note u = utf8_two [OF 2]
    show ?thesis
      unfolding u(1)
      by (rule decode_sequence) (use u in simp_all)
  next
    case 3
    note u = utf8_three [OF 3 assms(2)]
    show ?thesis
      unfolding u(1)
      by (rule decode_sequence) (use u in simp_all)
  next
    case 4
    note u = utf8_four [OF 4 assms(1)]
    show ?thesis
      unfolding u(1)
      by (rule decode_sequence) (use u in simp_all)
  qed
qed

subsection \<open>Code points and their code units\<close>

lemma UTF16Encode_unit: "UTF16EncodeCodePoint (unat (c :: code_unit)) = [c]"
  using unat16_less [of c] by (simp add: UTF16EncodeCodePoint_def)

lemma surrogate_pair:
  assumes "isLeadSurrogate c" "isTrailSurrogate d"
  shows "UTF16EncodeCodePoint (UTF16SurrogatePairToCodePoint c d) = [c, d]"
    and "UTF16SurrogatePairToCodePoint c d \<le> 0x10FFFF"
    and "\<not> (0xD800 \<le> UTF16SurrogatePairToCodePoint c d
           \<and> UTF16SurrogatePairToCodePoint c d \<le> 0xDFFF)"
proof -
  define h l where "h = unat c - 0xD800" and "l = unat d - 0xDC00"
  have h: "h < 0x400" "h + 0xD800 = unat c"
    using assms(1) unfolding h_def isLeadSurrogate_def by linarith+
  have l: "l < 0x400" "l + 0xDC00 = unat d"
    using assms(2) unfolding l_def isTrailSurrogate_def by linarith+
  have cp: "UTF16SurrogatePairToCodePoint c d = h * 0x400 + l + 0x10000"
    by (simp add: UTF16SurrogatePairToCodePoint_def h_def l_def)
  have "(h * 0x400 + l) div 0x400 = h" "(h * 0x400 + l) mod 0x400 = l"
    using l(1) by simp_all
  then show "UTF16EncodeCodePoint (UTF16SurrogatePairToCodePoint c d) = [c, d]"
    unfolding cp using h(2) l(2) by (simp add: UTF16EncodeCodePoint_def)
  show "UTF16SurrogatePairToCodePoint c d \<le> 0x10FFFF"
    unfolding cp using h(1) l(1) by linarith
  show "\<not> (0xD800 \<le> UTF16SurrogatePairToCodePoint c d
           \<and> UTF16SurrogatePairToCodePoint c d \<le> 0xDFFF)"
    unfolding cp by simp
qed

lemma unit_code_point:
  assumes "\<not> isLeadSurrogate c" "\<not> isTrailSurrogate c"
  shows "unat c \<le> 0x10FFFF" and "\<not> (0xD800 \<le> unat c \<and> unat c \<le> 0xDFFF)"
  using assms unat16_less [of c]
  by (auto simp: isLeadSurrogate_def isTrailSurrogate_def)

subsection \<open>The round trip, and when encoding succeeds\<close>

lemma decode_encode:
  "encodeURIComponent s = Inr e \<Longrightarrow> decodeURIComponent e = Inr s"
proof (induction s arbitrary: e rule: encodeURIComponent.induct)
  case 1
  then show ?case by simp
next
  case (2 c cs)
  consider (plain) "uriUnescaped c"
    | (bmp) "\<not> uriUnescaped c" "\<not> isLeadSurrogate c" "\<not> isTrailSurrogate c"
    | (trail) "\<not> uriUnescaped c" "isTrailSurrogate c"
    | (lead) "\<not> uriUnescaped c" "isLeadSurrogate c" "\<not> isTrailSurrogate c"
    by blast
  then show ?case
  proof cases
    case plain
    with "2.prems" obtain r where r: "encodeURIComponent cs = Inr r" "e = c # r"
      by (auto split: sum.splits)
    from plain r "2.IH"(1) have "decodeURIComponent r = Inr cs" by simp
    with r plain show ?thesis by (simp add: uriUnescaped_not_percent)
  next
    case bmp
    with "2.prems" obtain r where r: "encodeURIComponent cs = Inr r"
      "e = concat (map percentEncode (utf8_octets (unat c))) @ r"
      by (auto split: sum.splits)
    from bmp r "2.IH"(2) have d: "decodeURIComponent r = Inr cs" by simp
    note p = unit_code_point [OF bmp(2) bmp(3)]
    show ?thesis
      unfolding r(2) by (simp add: decode_escaped [OF p] d UTF16Encode_unit)
  next
    case trail
    with "2.prems" show ?thesis by simp
  next
    case lead
    with "2.prems" obtain d ds r where r: "cs = d # ds" "isTrailSurrogate d"
      "encodeURIComponent ds = Inr r"
      "e = concat (map percentEncode (utf8_octets (UTF16SurrogatePairToCodePoint c d))) @ r"
      by (auto split: sum.splits list.splits if_splits)
    from lead r "2.IH"(3) have dd: "decodeURIComponent r = Inr ds" by simp
    note p = surrogate_pair [OF lead(2) r(2)]
    show ?thesis
      unfolding r(4) r(1) by (simp add: decode_escaped [OF p(2) p(3)] dd p(1))
  qed
qed

lemma encode_error: "encodeURIComponent s = Inl x \<Longrightarrow> x = URIError"
proof (induction s arbitrary: x rule: encodeURIComponent.induct)
  case 1
  then show ?case by simp
next
  case (2 c cs)
  consider (plain) "uriUnescaped c"
    | (bmp) "\<not> uriUnescaped c" "\<not> isLeadSurrogate c" "\<not> isTrailSurrogate c"
    | (trail) "\<not> uriUnescaped c" "isTrailSurrogate c"
    | (lead) "\<not> uriUnescaped c" "isLeadSurrogate c" "\<not> isTrailSurrogate c"
    by blast
  then show ?case
  proof cases
    case plain
    with "2.prems" have "encodeURIComponent cs = Inl x" by (auto split: sum.splits)
    with plain "2.IH"(1) show ?thesis by simp
  next
    case bmp
    with "2.prems" have "encodeURIComponent cs = Inl x" by (auto split: sum.splits)
    with bmp "2.IH"(2) show ?thesis by simp
  next
    case trail
    with "2.prems" show ?thesis by simp
  next
    case lead
    with "2.prems" consider "x = URIError"
      | d ds where "cs = d # ds" "isTrailSurrogate d" "encodeURIComponent ds = Inl x"
      by (auto split: sum.splits list.splits if_splits)
    then show ?thesis
    proof cases
      case 1
      then show ?thesis .
    next
      case 2
      with lead "2.IH"(3) show ?thesis by simp
    qed
  qed
qed

lemma isWellFormed_unit:
  assumes "\<not> isLeadSurrogate c" "\<not> isTrailSurrogate c"
  shows "isWellFormed (c # cs) = isWellFormed cs"
  using assms by (cases cs) simp_all

lemma isWellFormed_trail:
  assumes "isTrailSurrogate c"
  shows "\<not> isWellFormed (c # cs)"
  using assms by (cases cs) (auto simp: isLeadSurrogate_def isTrailSurrogate_def)

lemma isWellFormed_lead:
  assumes "isLeadSurrogate c"
  shows "isWellFormed (c # cs) =
    (case cs of [] \<Rightarrow> False | d # ds \<Rightarrow> isTrailSurrogate d \<and> isWellFormed ds)"
  using assms by (cases cs) simp_all

lemma encode_iff_well_formed:
  "(\<exists>e. encodeURIComponent s = Inr e) \<longleftrightarrow> isWellFormed s"
proof (induction s rule: encodeURIComponent.induct)
  case 1
  then show ?case by simp
next
  case (2 c cs)
  consider (unit) "\<not> isLeadSurrogate c" "\<not> isTrailSurrogate c"
    | (trail) "isTrailSurrogate c"
    | (lead) "isLeadSurrogate c" "\<not> isTrailSurrogate c"
    by blast
  then show ?case
  proof cases
    case unit
    have "(\<exists>e. encodeURIComponent (c # cs) = Inr e) \<longleftrightarrow> (\<exists>e. encodeURIComponent cs = Inr e)"
      using unit by (auto split: sum.splits)
    moreover have "(\<exists>e. encodeURIComponent cs = Inr e) \<longleftrightarrow> isWellFormed cs"
      using unit "2.IH"(1) "2.IH"(2) by (cases "uriUnescaped c") simp_all
    ultimately show ?thesis using isWellFormed_unit [OF unit, of cs] by simp
  next
    case trail
    then have "\<not> uriUnescaped c" using uriUnescaped_not_surrogate by blast
    with trail have "encodeURIComponent (c # cs) = Inl URIError" by simp
    with trail show ?thesis by (simp add: isWellFormed_trail)
  next
    case lead
    then have nu: "\<not> uriUnescaped c" using uriUnescaped_not_surrogate by blast
    show ?thesis
    proof (cases cs)
      case Nil
      with lead nu show ?thesis by simp
    next
      case (Cons d ds)
      have "(\<exists>e. encodeURIComponent (c # d # ds) = Inr e)
          \<longleftrightarrow> isTrailSurrogate d \<and> (\<exists>e. encodeURIComponent ds = Inr e)"
        using lead nu by (auto split: sum.splits)
      moreover have "isTrailSurrogate d \<Longrightarrow>
          (\<exists>e. encodeURIComponent ds = Inr e) \<longleftrightarrow> isWellFormed ds"
        using lead nu Cons "2.IH"(3) by simp
      ultimately show ?thesis
        unfolding Cons using lead by (auto simp only: isWellFormed_lead list.case)
    qed
  qed
qed

lemma encode_ill_formed:
  assumes "\<not> isWellFormed s"
  shows "encodeURIComponent s = Inl URIError"
proof (cases "encodeURIComponent s")
  case (Inl x)
  then show ?thesis using encode_error by blast
next
  case (Inr e)
  with assms show ?thesis using encode_iff_well_formed by blast
qed

subsection \<open>The code units of an encoded component\<close>

lemma uriSafe_percentEncode:
  assumes "list_all (\<lambda>b. b < 256) bs"
  shows "list_all uriSafe (concat (map percentEncode bs))"
  using assms
proof (induction bs)
  case Nil
  then show ?case by simp
next
  case (Cons b bs)
  then have "b div 16 < 16" "b mod 16 < 16" by auto
  then have "list_all uriSafe (percentEncode b)"
    by (simp add: percentEncode_def uriSafe_def uriUnescaped_hexDigit)
  with Cons show ?case by simp
qed

lemma encode_uriSafe:
  "encodeURIComponent s = Inr e \<Longrightarrow> list_all uriSafe e"
proof (induction s arbitrary: e rule: encodeURIComponent.induct)
  case 1
  then show ?case by simp
next
  case (2 c cs)
  consider (plain) "uriUnescaped c"
    | (bmp) "\<not> uriUnescaped c" "\<not> isLeadSurrogate c" "\<not> isTrailSurrogate c"
    | (trail) "\<not> uriUnescaped c" "isTrailSurrogate c"
    | (lead) "\<not> uriUnescaped c" "isLeadSurrogate c" "\<not> isTrailSurrogate c"
    by blast
  then show ?case
  proof cases
    case plain
    with "2.prems" obtain r where r: "encodeURIComponent cs = Inr r" "e = c # r"
      by (auto split: sum.splits)
    from plain r "2.IH"(1) have "list_all uriSafe r" by simp
    moreover from plain have "uriSafe c" by (simp add: uriSafe_def)
    ultimately show ?thesis unfolding r(2) by simp
  next
    case bmp
    with "2.prems" obtain r where r: "encodeURIComponent cs = Inr r"
      "e = concat (map percentEncode (utf8_octets (unat c))) @ r"
      by (auto split: sum.splits)
    from bmp r "2.IH"(2) have "list_all uriSafe r" by simp
    moreover have "list_all uriSafe (concat (map percentEncode (utf8_octets (unat c))))"
      by (rule uriSafe_percentEncode, rule utf8_octets_bytes)
        (use unit_code_point [OF bmp(2) bmp(3)] in simp_all)
    ultimately show ?thesis unfolding r(2) by simp
  next
    case trail
    with "2.prems" show ?thesis by simp
  next
    case lead
    with "2.prems" obtain d ds r where r: "cs = d # ds" "isTrailSurrogate d"
      "encodeURIComponent ds = Inr r"
      "e = concat (map percentEncode (utf8_octets (UTF16SurrogatePairToCodePoint c d))) @ r"
      by (auto split: sum.splits list.splits if_splits)
    from lead r "2.IH"(3) have "list_all uriSafe r" by simp
    moreover have "list_all uriSafe
        (concat (map percentEncode (utf8_octets (UTF16SurrogatePairToCodePoint c d))))"
      by (rule uriSafe_percentEncode, rule utf8_octets_bytes)
        (use surrogate_pair [OF lead(2) r(2)] in simp_all)
    ultimately show ?thesis unfolding r(4) by simp
  qed
qed

lemma uriSafe_not_delimiter:
  "uriSafe c \<Longrightarrow> c \<noteq> 0x23 \<and> c \<noteq> 0x26 \<and> c \<noteq> 0x3D \<and> c \<noteq> 0x3F \<and> c \<noteq> 0x2B \<and> c \<noteq> 0x20"
  by (auto simp: uriSafe_def uriUnescaped_def Let_def)

subsection \<open>The parameter \<open>q\<close> of the search URL\<close>

lemma splitOn_without_separator: "sep \<notin> set xs \<Longrightarrow> splitOn sep xs = [xs]"
  by (induction xs) auto

lemma search_path: "js ''/search?q='' = js ''/search'' @ 0x3F # js ''q'' @ [0x3D]"
  by (simp add: js_def)

lemma search_path_units:
  "0x3F \<notin> set (js ''/search'')" "0x23 \<notin> set (js ''/search'')"
  "js ''q'' = [0x71]"
  by (simp_all add: js_def)

lemma searchParam_q:
  assumes "0x3F \<notin> set base" "0x23 \<notin> set base" "list_all uriSafe q"
  shows "searchParam (js ''q'') (base @ js ''/search?q='' @ q) = Some q"
proof -
  define head param where "head = base @ js ''/search''" and "param = 0x71 # 0x3D # q"
  have q: "\<forall>c \<in> set q. c \<noteq> 0x23 \<and> c \<noteq> 0x26 \<and> c \<noteq> 0x3D \<and> c \<noteq> 0x3F"
    using assms(3) uriSafe_not_delimiter by (auto simp: list_all_iff)
  have url: "base @ js ''/search?q='' @ q = head @ 0x3F # param"
    by (simp add: head_def param_def search_path search_path_units)
  have head: "\<forall>c \<in> set head. c \<noteq> 0x3F" "\<forall>c \<in> set head. c \<noteq> 0x23"
    using assms(1,2) search_path_units(1,2) by (auto simp: head_def)
  have param: "\<forall>c \<in> set param. c \<noteq> 0x23" "0x26 \<notin> set param"
    using q by (auto simp: param_def)
  have "\<forall>c \<in> set (head @ 0x3F # param). c \<noteq> 0x23"
    using head(2) param(1) by auto
  then have whole: "takeWhile (\<lambda>c. c \<noteq> 0x23) (head @ 0x3F # param) = head @ 0x3F # param"
    by (simp only: takeWhile_eq_all_conv)
  have "dropWhile (\<lambda>c. c \<noteq> 0x3F) (head @ 0x3F # param) = 0x3F # param"
    using head(1) by (simp add: dropWhile_append3)
  then have uq: "urlQuery (head @ 0x3F # param) = Some param"
    unfolding urlQuery_def whole Let_def by simp
  have sp: "splitOn 0x26 param = [param]"
    using param(2) by (rule splitOn_without_separator)
  have "filter (\<lambda>p. takeWhile (\<lambda>c. c \<noteq> 0x3D) p = js ''q'') [param] = [param]"
    by (simp add: param_def search_path_units(3))
  then have "searchParam (js ''q'') (head @ 0x3F # param) = Some (drop (length (js ''q'') + 1) param)"
    by (simp add: searchParam_def uq sp del: splitOn.simps)
  then show ?thesis
    unfolding url by (simp add: param_def search_path_units(3))
qed

text \<open>
  C10, as the code has it. For a well-formed query (no unpaired surrogate)
  \<open>searchPlaces\<close> requests exactly one URL, \<open>API_BASE\<close> followed by \<open>/search?q=\<close>
  and the encoded query. The encoded query consists of unreserved characters and
  percent escapes only, \<open>decodeURIComponent\<close> recovers the query from it, and, when
  \<open>API_BASE\<close> contains neither \<open>?\<close> nor \<open>#\<close>, it is the value of the parameter
  \<open>q\<close> of the requested URL. For a query with an unpaired surrogate
  \<open>encodeURIComponent\<close> throws \<open>URIError\<close> and nothing is requested.
\<close>

theorem searchPlaces_query_round_trip:
  "(isWellFormed queryText \<longrightarrow>
      (\<exists>q. encodeURIComponent queryText = Inr q
         \<and> snd (searchPlaces env fetch queryText) = [API_BASE env @ js ''/search?q='' @ q]
         \<and> list_all uriSafe q
         \<and> decodeURIComponent q = Inr queryText
         \<and> (0x3F \<notin> set (API_BASE env) \<and> 0x23 \<notin> set (API_BASE env) \<longrightarrow>
              searchParam (js ''q'') (API_BASE env @ js ''/search?q='' @ q) = Some q)))
   \<and> (\<not> isWellFormed queryText \<longrightarrow> searchPlaces env fetch queryText = (Inl URIError, []))"
proof (intro conjI impI)
  assume "isWellFormed queryText"
  then obtain q where q: "encodeURIComponent queryText = Inr q"
    using encode_iff_well_formed by blast
  have "snd (searchPlaces env fetch queryText) = [API_BASE env @ js ''/search?q='' @ q]"
    using q by (simp add: searchPlaces_def Let_def split: fetch_outcome.splits)
  moreover have safe: "list_all uriSafe q" using q by (rule encode_uriSafe)
  moreover have "decodeURIComponent q = Inr queryText" using q by (rule decode_encode)
  moreover have "0x3F \<notin> set (API_BASE env) \<and> 0x23 \<notin> set (API_BASE env) \<longrightarrow>
      searchParam (js ''q'') (API_BASE env @ js ''/search?q='' @ q) = Some q"
    using safe by (simp add: searchParam_q)
  ultimately show "\<exists>q. encodeURIComponent queryText = Inr q
         \<and> snd (searchPlaces env fetch queryText) = [API_BASE env @ js ''/search?q='' @ q]
         \<and> list_all uriSafe q
         \<and> decodeURIComponent q = Inr queryText
         \<and> (0x3F \<notin> set (API_BASE env) \<and> 0x23 \<notin> set (API_BASE env) \<longrightarrow>
              searchParam (js ''q'') (API_BASE env @ js ''/search?q='' @ q) = Some q)"
    using q by blast
next
  assume "\<not> isWellFormed queryText"
  then have "encodeURIComponent queryText = Inl URIError" by (rule encode_ill_formed)
  then show "searchPlaces env fetch queryText = (Inl URIError, [])"
    by (simp add: searchPlaces_def)
qed

theorem searchPlaces_query_round_trip_witness:
  "isWellFormed (js ''a b&c?=#'' @ [0xE9, 0x4E2D, 0xD83D, 0xDE00])
   \<and> snd (searchPlaces None (\<lambda>u. Rejected :: SearchResultType list fetch_outcome)
        (js ''a b&c?=#'' @ [0xE9, 0x4E2D, 0xD83D, 0xDE00]))
     = [js ''http://localhost:8000/search?q=a%20b%26c%3F%3D%23%C3%A9%E4%B8%AD%F0%9F%98%80'']
   \<and> searchParam (js ''q'')
        (js ''http://localhost:8000/search?q=a%20b%26c%3F%3D%23%C3%A9%E4%B8%AD%F0%9F%98%80'')
     = Some (js ''a%20b%26c%3F%3D%23%C3%A9%E4%B8%AD%F0%9F%98%80'')
   \<and> decodeURIComponent (js ''a%20b%26c%3F%3D%23%C3%A9%E4%B8%AD%F0%9F%98%80'')
     = Inr (js ''a b&c?=#'' @ [0xE9, 0x4E2D, 0xD83D, 0xDE00])
   \<and> \<not> isWellFormed [0xD83D]
   \<and> searchPlaces None (\<lambda>u. Rejected :: SearchResultType list fetch_outcome) [0xD83D]
     = (Inl URIError, [])"
proof -
  let ?queryText = "js ''a b&c?=#'' @ [0xE9, 0x4E2D, 0xD83D, 0xDE00]"
  let ?fetch = "\<lambda>u. Rejected :: SearchResultType list fetch_outcome"
  have w: "isWellFormed ?queryText" "\<not> isWellFormed [0xD83D]"
    by (simp_all add: js_def isLeadSurrogate_def isTrailSurrogate_def)
  have e: "encodeURIComponent ?queryText
      = Inr (js ''a%20b%26c%3F%3D%23%C3%A9%E4%B8%AD%F0%9F%98%80'')"
    by (simp add: js_def uriUnescaped_def isLeadSurrogate_def isTrailSurrogate_def
        utf8_octets_def percentEncode_def hexDigit_def UTF16SurrogatePairToCodePoint_def)
  have b: "API_BASE None = js ''http://localhost:8000''"
    "0x3F \<notin> set (API_BASE None)" "0x23 \<notin> set (API_BASE None)"
    by (simp_all add: API_BASE_def js_def)
  have u: "js ''http://localhost:8000'' @ js ''/search?q=''
        @ js ''a%20b%26c%3F%3D%23%C3%A9%E4%B8%AD%F0%9F%98%80''
      = js ''http://localhost:8000/search?q=a%20b%26c%3F%3D%23%C3%A9%E4%B8%AD%F0%9F%98%80''"
    by (simp add: js_def)
  show ?thesis
    using searchPlaces_query_round_trip [of ?queryText None ?fetch]
      searchPlaces_query_round_trip [of "[0xD83D]" None ?fetch] w e b u
    by auto
qed

text \<open>
  As C10 is stated, for every query string: the query that consists of the lone
  lead surrogate U+D800 is not embedded in any request; \<open>searchPlaces\<close> fails with
  \<open>URIError\<close> before \<open>fetch\<close> is called.
\<close>

theorem searchPlaces_lone_surrogate:
  "searchPlaces None (\<lambda>u. Rejected :: SearchResultType list fetch_outcome) [0xD800]
     = (Inl URIError, [])"
  by (simp add: searchPlaces_def uriUnescaped_def isLeadSurrogate_def isTrailSurrogate_def)

section \<open>Properties of the components\<close>

lemma js_open_closed: "js ''open'' \<noteq> js ''closed''"
  by (simp add: js_def)

lemma not_ok_404: "http_status res = 404 \<Longrightarrow> \<not> ok res"
  by (simp add: ok_def)

text \<open>
  C1. When the service answers the request for \<open>/place/{id}\<close> with status 404,
  \<open>getPlaceDetails\<close> returns \<open>null\<close> (no place detail, hence no status and no
  confidence), and \<open>PlacePage\<close> renders the view "Place not found", which is neither
  the error view nor a result card.
\<close>

theorem place_not_found_is_distinguished:
  assumes "fetch (API_BASE env @ js ''/place/'' @ ident) = Responded res"
    and "http_status res = 404"
  shows "getPlaceDetails env fetch ident = (Inr None, [API_BASE env @ js ''/place/'' @ ident])
    \<and> PlacePage env fetch ident = PlaceNotFound (js ''Place not found'')
    \<and> (\<forall>m. PlacePage env fetch ident \<noteq> FailedToLoad m)
    \<and> (\<forall>v. PlacePage env fetch ident \<noteq> PlaceResult v)"
proof -
  have g: "getPlaceDetails env fetch ident = (Inr None, [API_BASE env @ js ''/place/'' @ ident])"
    using assms by (simp add: getPlaceDetails_def Let_def not_ok_404)
  then have "PlacePage env fetch ident = PlaceNotFound (js ''Place not found'')"
    by (simp add: PlacePage_def)
  with g show ?thesis by simp
qed

theorem place_not_found_is_distinguished_witness:
  "getPlaceDetails None (\<lambda>u. Responded (Response 404 None :: PlaceDetail option response))
       (js ''nope'')
     = (Inr None, [js ''http://localhost:8000/place/nope''])
   \<and> PlacePage None (\<lambda>u. Responded (Response 404 None)) (js ''nope'')
     = PlaceNotFound (js ''Place not found'')"
proof -
  have u: "API_BASE None @ js ''/place/'' @ js ''nope'' = js ''http://localhost:8000/place/nope''"
    by (simp add: API_BASE_def js_def)
  show ?thesis
    using place_not_found_is_distinguished [of "\<lambda>u. Responded (Response 404 None)" None
        "js ''nope''" "Response 404 None"]
    by (simp add: u)
qed

text \<open>
  C2. For a query that has fewer than two code units after trimming, the effect of
  \<open>SearchBar\<close> leaves an empty result list and no pending timer, so the dropdown is
  closed and the timer callback, the only caller of the search endpoint, requests
  nothing. This holds for the effect itself and for \<open>onChange\<close> with such a text.
\<close>

theorem SearchBar_short_query:
  assumes "length (trim v) < 2"
  shows "(query s = v \<longrightarrow>
            results (SearchBar_effect s) = []
            \<and> timeoutId (SearchBar_effect s) = None
            \<and> dropdown (SearchBar (SearchBar_effect s)) = None
            \<and> SearchBar_timeout env fetch (SearchBar_effect s) = (SearchBar_effect s, []))
       \<and> (query s \<noteq> v \<longrightarrow>
            query (SearchBar_onChange v s) = v
            \<and> results (SearchBar_onChange v s) = []
            \<and> timeoutId (SearchBar_onChange v s) = None
            \<and> dropdown (SearchBar (SearchBar_onChange v s)) = None
            \<and> SearchBar_timeout env fetch (SearchBar_onChange v s)
                = (SearchBar_onChange v s, []))"
  using assms
  by (auto simp: SearchBar_effect_def SearchBar_onChange_def SearchBar_timeout_def SearchBar_def
      Let_def)

theorem SearchBar_short_query_witness:
  "length (trim (js '' '')) < 2
   \<and> results (SearchBar_onChange (js '' '')
        \<lparr> results = [\<lparr> id' = js ''p1'', name = js ''Pizza Hut'', address = js ''1 Main St'',
                  status = js ''open'', confidence = 0.9 \<rparr>],
              loading = False, query = js ''pi'', showDropdown = True,
              timeoutId = Some (js ''pi'') \<rparr>) = []
   \<and> snd (SearchBar_timeout None (\<lambda>u. Rejected) (SearchBar_onChange (js '' '')
        \<lparr> results = [\<lparr> id' = js ''p1'', name = js ''Pizza Hut'', address = js ''1 Main St'',
                  status = js ''open'', confidence = 0.9 \<rparr>],
              loading = False, query = js ''pi'', showDropdown = True,
              timeoutId = Some (js ''pi'') \<rparr>)) = []
   \<and> length (trim (js '''')) < 2
   \<and> results (SearchBar_effect
        \<lparr> results = [\<lparr> id' = js ''p1'', name = js ''Pizza Hut'', address = js ''1 Main St'',
                  status = js ''open'', confidence = 0.9 \<rparr>],
              loading = False, query = js '''', showDropdown = True,
              timeoutId = Some (js ''p'') \<rparr>) = []
   \<and> timeoutId (SearchBar_effect
        \<lparr> results = [\<lparr> id' = js ''p1'', name = js ''Pizza Hut'', address = js ''1 Main St'',
                  status = js ''open'', confidence = 0.9 \<rparr>],
              loading = False, query = js '''', showDropdown = True,
              timeoutId = Some (js ''p'') \<rparr>) = None"
proof -
  let ?s = "\<lparr> results = [\<lparr> id' = js ''p1'', name = js ''Pizza Hut'', address = js ''1 Main St'',
                  status = js ''open'', confidence = 0.9 \<rparr>],
              loading = False, query = js ''pi'', showDropdown = True,
              timeoutId = Some (js ''pi'') \<rparr>"
  let ?t = "\<lparr> results = [\<lparr> id' = js ''p1'', name = js ''Pizza Hut'', address = js ''1 Main St'',
                  status = js ''open'', confidence = 0.9 \<rparr>],
              loading = False, query = js '''', showDropdown = True,
              timeoutId = Some (js ''p'') \<rparr>"
  have a: "length (trim (js '' '')) < 2" and b: "length (trim (js '''')) < 2"
    by (simp_all add: trim_def js_def isWhiteSpace_def)
  have n: "query ?s \<noteq> js '' ''" "query ?t = js ''''" by (simp_all add: js_def)
  show ?thesis
    using SearchBar_short_query [OF a, of ?s None "\<lambda>u. Rejected"]
      SearchBar_short_query [OF b, of ?t None "\<lambda>u. Rejected"] a b n
    by simp
qed

subsection \<open>When the confidence is shown\<close>

lemma toLowerCase_literals:
  "toLowerCase (js ''open'') = js ''open''" "toLowerCase (js ''closed'') = js ''closed''"
  by (simp_all add: toLowerCase_def isAsciiUpper_def js_def)

lemma item_confidence_shown:
  "item_confidence (SearchResults_item r) \<noteq> None
     \<longleftrightarrow> status r = js ''open'' \<or> status r = js ''closed''"
  "item_confidence (SearchBar_item r) \<noteq> None
     \<longleftrightarrow> status r = js ''open'' \<or> status r = js ''closed''"
  by (simp_all add: SearchResults_item_def SearchBar_item_def)

lemma card_confidence_shown:
  "card_confidence (ResultCard data) \<noteq> None \<longleftrightarrow> StatusBadge (status data) \<noteq> UnknownBadge"
  by (simp add: ResultCard_def StatusBadge_def Let_def)

lemma unknown_badge_hides_confidence:
  assumes "StatusBadge (status r) = UnknownBadge"
  shows "item_confidence (SearchResults_item r) = None"
    and "item_confidence (SearchBar_item r) = None"
  using assms toLowerCase_literals
  by (auto simp: SearchResults_item_def SearchBar_item_def StatusBadge_def Let_def
      split: if_splits)

text \<open>
  C3. A displayed result is to show its confidence exactly when its status is OPEN or
  CLOSED. For the status \<open>OPEN\<close> the rows of \<open>SearchResults\<close> and of \<open>SearchBar\<close>
  show the badge "Open" and no confidence line, because they compare the status with
  \<open>'open'\<close> and \<open>'closed'\<close> as it is, while \<open>ResultCard\<close>, which lowercases the
  status first as \<open>StatusBadge\<close> does, shows the confidence.
\<close>

theorem confidence_of_OPEN_differs:
  "item_badge (SearchResults_item
      \<lparr> id' = js ''p1'', name = js ''Joe'', address = js ''1 Main St'',
        status = js ''OPEN'', confidence = 0.9 \<rparr>) = OpenBadge
   \<and> item_confidence (SearchResults_item
      \<lparr> id' = js ''p1'', name = js ''Joe'', address = js ''1 Main St'',
        status = js ''OPEN'', confidence = 0.9 \<rparr>) = None
   \<and> item_confidence (SearchBar_item
      \<lparr> id' = js ''p1'', name = js ''Joe'', address = js ''1 Main St'',
        status = js ''OPEN'', confidence = 0.9 \<rparr>) = None
   \<and> card_confidence (ResultCard
      \<lparr> id' = js ''p1'', name = js ''Joe'', address = js ''1 Main St'',
        status = js ''OPEN'', confidence = 0.9, explanation = Some [js ''Has a website''] \<rparr>)
      = Some 90"
  by (simp add: SearchResults_item_def SearchBar_item_def ResultCard_def StatusBadge_def
      toLowerCase_def isAsciiUpper_def js_def)

text \<open>
  C8. \<open>StatusBadge\<close> renders the badge "Open" exactly for the strings whose lowercasing
  is \<open>open\<close>, the badge "Closed" exactly for those whose lowercasing is \<open>closed\<close>, and
  the badge "Unknown" for every other string, among them \<open>UNKNOWN\<close> and the empty
  string.
\<close>

theorem StatusBadge_classifies:
  "(StatusBadge st = OpenBadge \<longleftrightarrow> toLowerCase st = js ''open'')
   \<and> (StatusBadge st = ClosedBadge \<longleftrightarrow> toLowerCase st = js ''closed'')
   \<and> (StatusBadge st = UnknownBadge \<longleftrightarrow>
        toLowerCase st \<noteq> js ''open'' \<and> toLowerCase st \<noteq> js ''closed'')
   \<and> StatusBadge (js ''OPEN'') = OpenBadge
   \<and> StatusBadge (js ''Open'') = OpenBadge
   \<and> StatusBadge (js ''open'') = OpenBadge
   \<and> StatusBadge (js ''CLOSED'') = ClosedBadge
   \<and> StatusBadge (js ''cLoSeD'') = ClosedBadge
   \<and> StatusBadge (js ''UNKNOWN'') = UnknownBadge
   \<and> StatusBadge (js '''') = UnknownBadge
   \<and> StatusBadge (js ''opened'') = UnknownBadge
   \<and> StatusBadge (js '' open'') = UnknownBadge"
proof -
  have general: "(StatusBadge st = OpenBadge \<longleftrightarrow> toLowerCase st = js ''open'')
   \<and> (StatusBadge st = ClosedBadge \<longleftrightarrow> toLowerCase st = js ''closed'')
   \<and> (StatusBadge st = UnknownBadge \<longleftrightarrow>
        toLowerCase st \<noteq> js ''open'' \<and> toLowerCase st \<noteq> js ''closed'')"
    using js_open_closed by (auto simp: StatusBadge_def Let_def)
  have examples: "StatusBadge (js ''OPEN'') = OpenBadge"
    "StatusBadge (js ''Open'') = OpenBadge"
    "StatusBadge (js ''open'') = OpenBadge"
    "StatusBadge (js ''CLOSED'') = ClosedBadge"
    "StatusBadge (js ''cLoSeD'') = ClosedBadge"
    "StatusBadge (js ''UNKNOWN'') = UnknownBadge"
    "StatusBadge (js '''') = UnknownBadge"
    "StatusBadge (js ''opened'') = UnknownBadge"
    "StatusBadge (js '' open'') = UnknownBadge"
    by (simp_all add: StatusBadge_def toLowerCase_def isAsciiUpper_def js_def)
  from general examples show ?thesis by blast
qed

text \<open>
  C9. When the explanation of a place detail is absent or the empty list,
  \<open>ResultCard\<close> renders the sentence "No detailed explanation available for this
  prediction."; a non-empty explanation is rendered as its list; so the card never
  shows an empty list of signals.
\<close>

theorem ResultCard_never_empty_signals:
  "(explanation data = None \<or> explanation data = Some [] \<longrightarrow>
      card_signals (ResultCard data) =
        NoExplanation (js ''No detailed explanation available for this prediction.''))
   \<and> (\<forall>items. explanation data = Some items \<and> items \<noteq> [] \<longrightarrow>
          card_signals (ResultCard data) = SignalList items)
   \<and> card_signals (ResultCard data) \<noteq> SignalList []"
  by (auto simp: ResultCard_def Let_def split: option.splits)

theorem ResultCard_never_empty_signals_witness:
  "card_signals (ResultCard \<lparr> id' = js ''p1'', name = js ''Joe'', address = js ''1 Main St'',
       status = js ''open'', confidence = 0.9, explanation = Some [] \<rparr>)
     = NoExplanation (js ''No detailed explanation available for this prediction.'')
   \<and> card_signals (ResultCard \<lparr> id' = js ''p1'', name = js ''Joe'', address = js ''1 Main St'',
       status = js ''open'', confidence = 0.9, explanation = None \<rparr>)
     = NoExplanation (js ''No detailed explanation available for this prediction.'')
   \<and> card_signals (ResultCard \<lparr> id' = js ''p1'', name = js ''Joe'', address = js ''1 Main St'',
       status = js ''open'', confidence = 0.9, explanation = Some [js ''Has a website''] \<rparr>)
     = SignalList [js ''Has a website'']"
  using ResultCard_never_empty_signals [of "\<lparr> id' = js ''p1'', name = js ''Joe'',
       address = js ''1 Main St'', status = js ''open'', confidence = 0.9,
       explanation = Some [] \<rparr>"]
    ResultCard_never_empty_signals [of "\<lparr> id' = js ''p1'', name = js ''Joe'',
       address = js ''1 Main St'', status = js ''open'', confidence = 0.9,
       explanation = None \<rparr>"]
    ResultCard_never_empty_signals [of "\<lparr> id' = js ''p1'', name = js ''Joe'',
       address = js ''1 Main St'', status = js ''open'', confidence = 0.9,
       explanation = Some [js ''Has a website''] \<rparr>"]
  by simp

subsection \<open>The outcomes of a request\<close>

text \<open>
  \<open>PlacePage\<close> renders the error card when \<open>fetch\<close> rejects, when the status is
  neither 2xx nor 404 and when the body is not JSON, the view "Place not found" for
  404 and for a \<open>null\<close> body, and the result card otherwise.
\<close>

lemma PlacePage_outcomes:
  "PlacePage env fetch ident =
     (case fetch (API_BASE env @ js ''/place/'' @ ident) of
        Rejected \<Rightarrow>
          FailedToLoad (js ''Failed to load place details. The API might be offline.'')
      | Responded res \<Rightarrow>
          if http_status res = 404 then PlaceNotFound (js ''Place not found'')
          else if \<not> ok res then
            FailedToLoad (js ''Failed to load place details. The API might be offline.'')
          else
            (case body res of
               None \<Rightarrow>
                 FailedToLoad (js ''Failed to load place details. The API might be offline.'')
             | Some None \<Rightarrow> PlaceNotFound (js ''Place not found'')
             | Some (Some data) \<Rightarrow> PlaceResult (ResultCard data)))"
  by (simp add: PlacePage_def getPlaceDetails_def json_def Let_def not_ok_404
      split: fetch_outcome.splits option.splits)

text \<open>
  The timer callback of \<open>SearchBar\<close> sets \<open>loading\<close> before it calls the service and
  resets it in \<open>finally\<close>: it ends with \<open>loading\<close> false whatever the outcome.
\<close>

lemma SearchBar_timeout_outcomes:
  assumes "timeoutId b = Some queryText"
  shows "encodeURIComponent queryText = Inr enc \<Longrightarrow>
      SearchBar_timeout env fetch b =
        ((case delivered (fetch (API_BASE env @ js ''/search?q='' @ enc)) of
            Some data \<Rightarrow>
              b\<lparr>timeoutId := None, results := data, showDropdown := True, loading := False\<rparr>
          | None \<Rightarrow> b\<lparr>timeoutId := None, loading := False\<rparr>),
         [API_BASE env @ js ''/search?q='' @ enc])"
    and "encodeURIComponent queryText = Inl e \<Longrightarrow>
      SearchBar_timeout env fetch b = (b\<lparr>timeoutId := None, loading := False\<rparr>, [])"
    and "loading (fst (SearchBar_timeout env fetch b)) = False"
  using assms
  by (auto simp: SearchBar_timeout_def searchPlaces_def delivered_def json_def Let_def
      split: fetch_outcome.splits option.splits sum.splits)

lemma SearchResults_empty_query:
  "SearchResults_effect env fetch settled [] s = (s\<lparr>results := []\<rparr>, [])"
  by (simp add: SearchResults_effect_def)

text \<open>
  When \<open>SearchResults\<close> has issued its request, a delivered list becomes the results
  and any failure leaves the results as they were; \<open>loading\<close> ends false when the
  timer fired first and true when the promise settled first.
\<close>

lemma SearchResults_effect_outcomes:
  assumes "encodeURIComponent queryText = Inr enc" and "queryText \<noteq> []"
  shows "SearchResults_effect env fetch settled queryText s =
      ((case delivered (fetch (API_BASE env @ js ''/search?q='' @ enc)) of
          Some data \<Rightarrow> s\<lparr>results := data, loading := settled\<rparr>
        | None \<Rightarrow> s\<lparr>loading := settled\<rparr>),
       [API_BASE env @ js ''/search?q='' @ enc])"
  using assms
  by (simp add: SearchResults_effect_def searchPlaces_def delivered_def json_def Let_def
      split: fetch_outcome.splits option.splits)

text \<open>
  A query that cannot be encoded is never requested; \<open>SearchResults\<close> is then left
  with \<open>loading\<close> set, by the deferred \<open>setLoading(true)\<close>.
\<close>

lemma SearchResults_unencodable_query:
  assumes "encodeURIComponent queryText = Inl e" and "queryText \<noteq> []"
  shows "SearchResults_effect env fetch settled queryText s = (s\<lparr>loading := True\<rparr>, [])"
proof -
  from assms(1) have "e = URIError" by (rule encode_error)
  with assms show ?thesis
    by (simp add: SearchResults_effect_def searchPlaces_def)
qed

text \<open>
  Whenever the promise of \<open>searchPlaces\<close> settles before the timer, with data or
  with a failure, \<open>SearchResults\<close> shows its spinner from then on.
\<close>

lemma SearchResults_settled_before_timer:
  assumes "queryText \<noteq> []"
  shows "SearchResults queryText (fst (SearchResults_effect env fetch True queryText s)) = Spinner"
proof (cases "encodeURIComponent queryText")
  case (Inl e)
  then show ?thesis
    using assms by (simp add: SearchResults_unencodable_query SearchResults_def)
next
  case (Inr enc)
  then show ?thesis
    using assms
    by (simp add: SearchResults_effect_outcomes SearchResults_def split: option.splits)
qed

text \<open>
  C5. Every failure of a request is to end in a rendered state: a result, a
  not-found view, an error view or an empty list. \<open>SearchResults\<close> does not: when
  \<open>fetch\<close> returns a promise that is already rejected (here for the query \<open>pizza\<close>
  and an \<open>API_BASE\<close> that is no URL), and when the query cannot be encoded (a lone
  surrogate), \<open>finally\<close> resets \<open>loading\<close> before the deferred \<open>setLoading(true)\<close>
  sets it, and the component stays on its spinner. On the same failure the timer
  callback of \<open>SearchBar\<close> ends with \<open>loading\<close> false, and \<open>PlacePage\<close> renders its
  error card.
\<close>

theorem SearchResults_left_on_spinner:
  "SearchResults_effect (Some (js ''http://exa mple.com'')) (\<lambda>u. Rejected) True (js ''pizza'')
       \<lparr> results = [], loading = False \<rparr>
     = (\<lparr> results = [], loading = True \<rparr>, [js ''http://exa mple.com/search?q=pizza''])
   \<and> SearchResults (js ''pizza'') \<lparr> results = [], loading = True \<rparr> = Spinner
   \<and> SearchResults_effect None (\<lambda>u. Responded (Response 200 (Some []))) False [0xD83D]
       \<lparr> results = [], loading = False \<rparr>
     = (\<lparr> results = [], loading = True \<rparr>, [])
   \<and> SearchResults [0xD83D] \<lparr> results = [], loading = True \<rparr> = Spinner
   \<and> SearchBar_timeout (Some (js ''http://exa mple.com'')) (\<lambda>u. Rejected)
       \<lparr> results = [], loading = False, query = js ''pizza'', showDropdown = False,
         timeoutId = Some (js ''pizza'') \<rparr>
     = (\<lparr> results = [], loading = False, query = js ''pizza'', showDropdown = False,
          timeoutId = None \<rparr>, [js ''http://exa mple.com/search?q=pizza''])
   \<and> PlacePage (Some (js ''http://exa mple.com'')) (\<lambda>u. Rejected) (js ''p1'')
     = FailedToLoad (js ''Failed to load place details. The API might be offline.'')"
proof -
  have e: "encodeURIComponent (js ''pizza'') = Inr (js ''pizza'')"
    "encodeURIComponent [0xD83D] = Inl URIError"
    by (simp_all add: js_def uriUnescaped_def isLeadSurrogate_def isTrailSurrogate_def)
  have u: "API_BASE (Some (js ''http://exa mple.com'')) @ js ''/search?q='' @ js ''pizza''
      = js ''http://exa mple.com/search?q=pizza''"
    by (simp add: API_BASE_def js_def)
  have n: "js ''pizza'' \<noteq> []" by (simp add: js_def)
  have a: "SearchResults_effect (Some (js ''http://exa mple.com'')) (\<lambda>u. Rejected) True
       (js ''pizza'') \<lparr> results = [], loading = False \<rparr>
     = (\<lparr> results = [], loading = True \<rparr>, [js ''http://exa mple.com/search?q=pizza''])"
    using e(1) n by (simp add: SearchResults_effect_outcomes delivered_def u)
  have b: "SearchResults_effect None (\<lambda>u. Responded (Response 200 (Some []))) False [0xD83D]
       \<lparr> results = [], loading = False \<rparr>
     = (\<lparr> results = [], loading = True \<rparr>, [])"
    using e(2) by (simp add: SearchResults_unencodable_query)
  have c: "SearchResults (js ''pizza'') \<lparr> results = [], loading = True \<rparr> = Spinner"
    "SearchResults [0xD83D] \<lparr> results = [], loading = True \<rparr> = Spinner"
    by (simp_all add: SearchResults_def)
  have d: "SearchBar_timeout (Some (js ''http://exa mple.com'')) (\<lambda>u. Rejected)
       \<lparr> results = [], loading = False, query = js ''pizza'', showDropdown = False,
         timeoutId = Some (js ''pizza'') \<rparr>
     = (\<lparr> results = [], loading = False, query = js ''pizza'', showDropdown = False,
          timeoutId = None \<rparr>, [js ''http://exa mple.com/search?q=pizza''])"
    using e(1) by (simp add: SearchBar_timeout_outcomes(1) delivered_def u)
  have p: "PlacePage (Some (js ''http://exa mple.com'')) (\<lambda>u. Rejected) (js ''p1'')
     = FailedToLoad (js ''Failed to load place details. The API might be offline.'')"
    by (simp add: PlacePage_outcomes)
  from a b c d p show ?thesis by blast
qed

section \<open>Properties of the engine of the specification\<close>

lemma explain_length:
  assumes "1 \<le> cap cfg"
  shows "1 \<le> length (explain cfg place vector contributions)
    \<and> length (explain cfg place vector contributions) \<le> cap cfg"
proof (cases "contributions = []
    \<or> list_all (\<lambda>(f, m). \<bar>m\<bar> < negligible cfg) contributions")
  case True
  then have "explain cfg place vector contributions = [generic cfg]"
    by (simp add: explain_def)
  with assms show ?thesis by simp
next
  case False
  then have "contributions \<noteq> []" by simp
  then have "1 \<le> length contributions" by (cases contributions) simp_all
  moreover from False have "length (explain cfg place vector contributions)
      = min (length contributions) (cap cfg)"
    by (simp add: explain_def)
  ultimately show ?thesis using assms by simp
qed

lemma predictById_not_found:
  "getById pid = None \<Longrightarrow> predictById getById schema model cfg pid = Inl NotFound"
  by (simp add: predictById_def)

lemma predictById_unknown:
  assumes "predictById getById schema model cfg pid = Inr r"
  shows "result_status r = UNKNOWN \<longleftrightarrow> model = None"
    and "result_status r = UNKNOWN \<longleftrightarrow> result_confidence r = None"
  using assms
  by (auto simp: predictById_def Let_def split: option.splits prod.splits label.splits)

text \<open>
  C4. With a cap of at least one, the explanation of every prediction of
  \<open>predictById\<close> whose status is \<open>OPEN\<close> or \<open>CLOSED\<close> has at least one string and at
  most \<open>cap\<close> strings, and so has every result of \<open>explain\<close>.
\<close>

theorem explanation_bounds:
  assumes "1 \<le> cap cfg"
  shows "(predictById getById schema model cfg pid = Inr r
          \<and> (result_status r = OPEN \<or> result_status r = CLOSED) \<longrightarrow>
            1 \<le> length (result_explanation r) \<and> length (result_explanation r) \<le> cap cfg)
    \<and> 1 \<le> length (explain cfg place vector contributions)
    \<and> length (explain cfg place vector contributions) \<le> cap cfg"
proof -
  have "1 \<le> length (result_explanation r) \<and> length (result_explanation r) \<le> cap cfg"
    if p: "predictById getById schema model cfg pid = Inr r"
      and s: "result_status r = OPEN \<or> result_status r = CLOSED"
  proof -
    from p obtain pl where pl: "getById pid = Some pl"
      by (auto simp: predictById_def split: option.splits)
    from p s pl obtain predict where m: "model = Some predict"
      by (auto simp: predictById_def split: option.splits)
    obtain l pr cs where o: "predict (extract_features schema pl) = (l, pr, cs)"
      by (cases "predict (extract_features schema pl)") auto
    from p pl m o have "result_explanation r = explain cfg pl (extract_features schema pl) cs"
      by (auto simp: predictById_def Let_def)
    then show ?thesis using explain_length [OF assms] by simp
  qed
  then show ?thesis using explain_length [OF assms] by blast
qed

theorem explanation_bounds_witness:
  "(1::nat) \<le> 3
   \<and> predictById
        [''p1'' \<mapsto> \<lparr> place_id = ''p1'', place_name = ''Joes Diner'', category = ''restaurant'',
            location = None, metadata = Map.empty, last_updated = 400 \<rparr>]
        []
        (Some (\<lambda>v. (LabelClosed, 0.8,
           [(''has_website'', 0.5), (''recency'', - 0.7), (''category'', 0.1), (''hours'', 0.2)])))
        \<lparr> cap = 3, negligible = 0.01, template = (\<lambda>f p. f), generic = ''No strong signal'',
          unavailable = ''Model unavailable'' \<rparr>
        ''p1''
     = Inr \<lparr> result_place_id = ''p1'', result_status = CLOSED, result_confidence = Some 0.8,
             result_explanation = [''recency'', ''has_website'', ''hours''] \<rparr>
   \<and> (1::nat) \<le> length [''recency'', ''has_website'', ''hours'']
   \<and> length [''recency'', ''has_website'', ''hours''] \<le> (3::nat)"
proof -
  let ?place = "\<lparr> place_id = ''p1'', place_name = ''Joes Diner'', category = ''restaurant'',
            location = None, metadata = Map.empty, last_updated = 400 \<rparr>"
  let ?cfg = "\<lparr> cap = 3, negligible = 0.01, template = (\<lambda>f p. f),
          generic = ''No strong signal'', unavailable = ''Model unavailable'' \<rparr>"
  let ?model = "Some (\<lambda>v :: real list. (LabelClosed, 0.8 :: real,
           [(''has_website'', 0.5 :: real), (''recency'', - 0.7), (''category'', 0.1),
            (''hours'', 0.2)]))"
  let ?r = "\<lparr> result_place_id = ''p1'', result_status = CLOSED, result_confidence = Some 0.8,
             result_explanation = [''recency'', ''has_website'', ''hours''] \<rparr>"
  have c: "1 \<le> cap ?cfg" by simp
  have p: "predictById [''p1'' \<mapsto> ?place] [] ?model ?cfg ''p1'' = Inr ?r"
    by (simp add: predictById_def extract_features_def explain_def)
  show ?thesis
    using explanation_bounds [OF c, of "[''p1'' \<mapsto> ?place]" "[]" ?model "''p1''" ?r] p
    by simp
qed

subsection \<open>The ranking\<close>

lemma ranks_before_key: "ranks_before a b \<longleftrightarrow> rank_key a \<le> rank_key b"
  by (auto simp: ranks_before_def rank_key_def less_eq_prod_def)

lemma sorted_rank: "sorted_wrt ranks_before (rank candidates)"
proof -
  have "sorted (map rank_key (sort_key rank_key candidates))"
    by (rule sorted_sort_key)
  then show ?thesis
    by (simp add: sorted_map rank_def ranks_before_key [abs_def])
qed

lemma rank_key_inj:
  assumes "distinct (map (\<lambda>c. place_id (snd c)) candidates)"
  shows "distinct (map rank_key candidates)"
proof -
  have "map (\<lambda>c. place_id (snd c)) candidates = map (\<lambda>k. snd (snd k)) (map rank_key candidates)"
    by (simp add: rank_key_def)
  with assms show ?thesis
    using distinct_map by metis
qed

lemma rank_unique:
  assumes d: "distinct (map (\<lambda>c. place_id (snd c)) candidates)"
    and m: "mset other = mset candidates"
  shows "rank other = rank candidates"
proof -
  have dk: "distinct (map rank_key candidates)" using d by (rule rank_key_inj)
  have mk: "mset (map rank_key (rank other)) = mset (map rank_key (rank candidates))"
    using m by (simp add: rank_def)
  have m1: "mset (map rank_key (rank candidates)) = mset (map rank_key candidates)"
    by (simp add: rank_def)
  have d1: "distinct (map rank_key (rank candidates))"
    using dk m1 mset_eq_imp_distinct_iff by blast
  have d2: "distinct (map rank_key (rank other))"
    using d1 mk mset_eq_imp_distinct_iff by blast
  have s: "sorted (map rank_key (rank candidates))" "sorted (map rank_key (rank other))"
    by (simp_all add: rank_def)
  have "set (map rank_key (rank other)) = set (map rank_key (rank candidates))"
    using mk by (rule mset_eq_setD)
  with s d1 d2 have keys: "map rank_key (rank other) = map rank_key (rank candidates)"
    by (intro sorted_distinct_set_unique)
  have "set other = set candidates" using m by (rule mset_eq_setD)
  then have sets: "set (rank other) = set candidates" "set (rank candidates) = set candidates"
    by (simp_all add: rank_def)
  have "inj_on rank_key (set candidates)"
    using dk by (simp add: distinct_map)
  then have "inj_on rank_key (set (rank other) \<union> set (rank candidates))"
    by (simp add: sets)
  then show ?thesis using keys by (simp add: inj_on_map_eq_map)
qed

lemma search_sorted:
  "sorted_wrt (\<lambda>p p'. ranks_before (relevance queryText p, p) (relevance queryText p', p'))
     (search store relevance queryText limit)"
proof -
  let ?score = "\<lambda>p. (relevance queryText p, p)"
  let ?ranked = "take limit (rank (map ?score (store queryText)))"
  have s: "sorted_wrt ranks_before ?ranked"
    using sorted_rank by (rule sorted_wrt_take)
  have "set ?ranked \<subseteq> set (rank (map ?score (store queryText)))"
    by (rule set_take_subset)
  then have e: "\<forall>x \<in> set ?ranked. x = ?score (snd x)"
    by (auto simp: rank_def)
  have "sorted_wrt (\<lambda>x y. ranks_before (?score (snd x)) (?score (snd y))) ?ranked"
    using s e by (rule_tac sorted_wrt_mono_rel [where P = ranks_before]) auto
  then have "sorted_wrt (\<lambda>p p'. ranks_before (?score p) (?score p')) (map snd ?ranked)"
    by (simp add: sorted_wrt_map)
  then show ?thesis by (simp add: search_def Let_def)
qed

text \<open>
  C7. \<open>rank\<close> returns the candidates it was given, each before the next in the
  order of the specification: higher score first, then later \<open>last_updated\<close>, then
  smaller \<open>place_id\<close>. The order is total, and two candidates that stand before
  each other agree on score, \<open>last_updated\<close> and \<open>place_id\<close>. With unique place
  ids the ranking does not depend on the order in which the store returned the
  candidates, and so neither does the result of \<open>search\<close>, which is in that order
  too.
\<close>

theorem rank_is_total_and_deterministic:
  "sorted_wrt ranks_before (rank candidates)
   \<and> mset (rank candidates) = mset candidates
   \<and> (ranks_before a b \<or> ranks_before b a)
   \<and> (ranks_before a b \<and> ranks_before b a \<longrightarrow>
        fst a = fst b \<and> last_updated (snd a) = last_updated (snd b)
        \<and> place_id (snd a) = place_id (snd b))
   \<and> (distinct (map (\<lambda>c. place_id (snd c)) candidates) \<and> mset other = mset candidates \<longrightarrow>
        rank other = rank candidates)
   \<and> (distinct (map place_id (store queryText)) \<and> mset (store' queryText) = mset (store queryText) \<longrightarrow>
        search store' relevance queryText limit = search store relevance queryText limit)
   \<and> sorted_wrt (\<lambda>p p'. ranks_before (relevance queryText p, p) (relevance queryText p', p'))
        (search store relevance queryText limit)"
proof (intro conjI)
  show "sorted_wrt (\<lambda>p p'. ranks_before (relevance queryText p, p) (relevance queryText p', p'))
        (search store relevance queryText limit)"
    by (rule search_sorted)
  show "sorted_wrt ranks_before (rank candidates)" by (rule sorted_rank)
  show "mset (rank candidates) = mset candidates" by (simp add: rank_def)
  show "ranks_before a b \<or> ranks_before b a"
    unfolding ranks_before_key by (rule linear)
  show "ranks_before a b \<and> ranks_before b a \<longrightarrow>
        fst a = fst b \<and> last_updated (snd a) = last_updated (snd b)
        \<and> place_id (snd a) = place_id (snd b)"
  proof
    assume "ranks_before a b \<and> ranks_before b a"
    then have "rank_key a = rank_key b"
      unfolding ranks_before_key by (simp add: antisym)
    then show "fst a = fst b \<and> last_updated (snd a) = last_updated (snd b)
        \<and> place_id (snd a) = place_id (snd b)"
      by (simp add: rank_key_def)
  qed
  show "distinct (map (\<lambda>c. place_id (snd c)) candidates) \<and> mset other = mset candidates \<longrightarrow>
        rank other = rank candidates"
    using rank_unique by blast
  show "distinct (map place_id (store queryText))
      \<and> mset (store' queryText) = mset (store queryText) \<longrightarrow>
        search store' relevance queryText limit = search store relevance queryText limit"
  proof
    assume h: "distinct (map place_id (store queryText))
      \<and> mset (store' queryText) = mset (store queryText)"
    let ?score = "\<lambda>p. (relevance queryText p, p)"
    have "distinct (map (\<lambda>c. place_id (snd c)) (map ?score (store queryText)))"
      using h by (simp add: comp_def)
    moreover have "mset (map ?score (store' queryText)) = mset (map ?score (store queryText))"
      using h by simp
    ultimately have "rank (map ?score (store' queryText)) = rank (map ?score (store queryText))"
      by (rule rank_unique)
    then show "search store' relevance queryText limit = search store relevance queryText limit"
      by (simp add: search_def)
  qed
qed

theorem rank_is_total_and_deterministic_witness:
  "rank [(0.5, \<lparr> place_id = ''b'', place_name = ''Bar'', category = ''bar'', location = None,
                  metadata = Map.empty, last_updated = 10 \<rparr>),
         (0.9, \<lparr> place_id = ''c'', place_name = ''Cafe'', category = ''cafe'', location = None,
                  metadata = Map.empty, last_updated = 5 \<rparr>),
         (0.5, \<lparr> place_id = ''a'', place_name = ''Joes Diner'', category = ''restaurant'', location = None,
                  metadata = Map.empty, last_updated = 10 \<rparr>),
         (0.5, \<lparr> place_id = ''d'', place_name = ''Deli'', category = ''deli'', location = None,
                  metadata = Map.empty, last_updated = 20 \<rparr>)]
     = [(0.9, \<lparr> place_id = ''c'', place_name = ''Cafe'', category = ''cafe'', location = None,
                  metadata = Map.empty, last_updated = 5 \<rparr>),
         (0.5, \<lparr> place_id = ''d'', place_name = ''Deli'', category = ''deli'', location = None,
                  metadata = Map.empty, last_updated = 20 \<rparr>),
         (0.5, \<lparr> place_id = ''a'', place_name = ''Joes Diner'', category = ''restaurant'', location = None,
                  metadata = Map.empty, last_updated = 10 \<rparr>),
         (0.5, \<lparr> place_id = ''b'', place_name = ''Bar'', category = ''bar'', location = None,
                  metadata = Map.empty, last_updated = 10 \<rparr>)]
   \<and> rank [(0.5, \<lparr> place_id = ''a'', place_name = ''Joes Diner'', category = ''restaurant'', location = None,
                  metadata = Map.empty, last_updated = 10 \<rparr>),
         (0.5, \<lparr> place_id = ''d'', place_name = ''Deli'', category = ''deli'', location = None,
                  metadata = Map.empty, last_updated = 20 \<rparr>),
         (0.5, \<lparr> place_id = ''b'', place_name = ''Bar'', category = ''bar'', location = None,
                  metadata = Map.empty, last_updated = 10 \<rparr>),
         (0.9, \<lparr> place_id = ''c'', place_name = ''Cafe'', category = ''cafe'', location = None,
                  metadata = Map.empty, last_updated = 5 \<rparr>)]
     = [(0.9, \<lparr> place_id = ''c'', place_name = ''Cafe'', category = ''cafe'', location = None,
                  metadata = Map.empty, last_updated = 5 \<rparr>),
         (0.5, \<lparr> place_id = ''d'', place_name = ''Deli'', category = ''deli'', location = None,
                  metadata = Map.empty, last_updated = 20 \<rparr>),
         (0.5, \<lparr> place_id = ''a'', place_name = ''Joes Diner'', category = ''restaurant'', location = None,
                  metadata = Map.empty, last_updated = 10 \<rparr>),
         (0.5, \<lparr> place_id = ''b'', place_name = ''Bar'', category = ''bar'', location = None,
                  metadata = Map.empty, last_updated = 10 \<rparr>)]
   \<and> ranks_before (0.5, \<lparr> place_id = ''a'', place_name = ''Joes Diner'', category = ''restaurant'', location = None,
                  metadata = Map.empty, last_updated = 10 \<rparr>)
        (0.5, \<lparr> place_id = ''a'', place_name = ''Joes Diner'', category = ''restaurant'', location = None,
                  metadata = Map.empty, last_updated = 10 \<rparr>)
   \<and> search (\<lambda>q. [\<lparr> place_id = ''a'', place_name = ''Joes Diner'', category = ''restaurant'', location = None,
                  metadata = Map.empty, last_updated = 10 \<rparr>,
         \<lparr> place_id = ''b'', place_name = ''Bar'', category = ''bar'', location = None,
                  metadata = Map.empty, last_updated = 10 \<rparr>]) (\<lambda>q p. 1) ''joe'' 2
     = search (\<lambda>q. [\<lparr> place_id = ''b'', place_name = ''Bar'', category = ''bar'', location = None,
                  metadata = Map.empty, last_updated = 10 \<rparr>,
         \<lparr> place_id = ''a'', place_name = ''Joes Diner'', category = ''restaurant'', location = None,
                  metadata = Map.empty, last_updated = 10 \<rparr>]) (\<lambda>q p. 1) ''joe'' 2"
proof -
  define a b c d :: "real \<times> Place" where
    "a = (0.5, \<lparr> place_id = ''a'', place_name = ''Joes Diner'', category = ''restaurant'', location = None,
                  metadata = Map.empty, last_updated = 10 \<rparr>)"
    and "b = (0.5, \<lparr> place_id = ''b'', place_name = ''Bar'', category = ''bar'', location = None,
                  metadata = Map.empty, last_updated = 10 \<rparr>)"
    and "c = (0.9, \<lparr> place_id = ''c'', place_name = ''Cafe'', category = ''cafe'', location = None,
                  metadata = Map.empty, last_updated = 5 \<rparr>)"
    and "d = (0.5, \<lparr> place_id = ''d'', place_name = ''Deli'', category = ''deli'', location = None,
                  metadata = Map.empty, last_updated = 20 \<rparr>)"
  have k: "rank_key a = (- 0.5, - 10, ''a'')" "rank_key b = (- 0.5, - 10, ''b'')"
    "rank_key c = (- 0.9, - 5, ''c'')" "rank_key d = (- 0.5, - 20, ''d'')"
    by (simp_all add: rank_key_def a_def b_def c_def d_def)
  have o: "rank_key c \<le> rank_key d" "rank_key d \<le> rank_key a" "rank_key a \<le> rank_key b"
    "\<not> rank_key d \<le> rank_key c" "\<not> rank_key a \<le> rank_key d" "\<not> rank_key b \<le> rank_key a"
    "rank_key c \<le> rank_key a" "rank_key c \<le> rank_key b" "rank_key d \<le> rank_key b"
    "\<not> rank_key a \<le> rank_key c" "\<not> rank_key b \<le> rank_key c" "\<not> rank_key b \<le> rank_key d"
    unfolding k by (simp_all add: less_eq_prod_def less_prod_def)
  have r: "rank [b, c, a, d] = [c, d, a, b]"
    by (simp add: rank_def o)
  have dist: "distinct (map (\<lambda>c. place_id (snd c)) [b, c, a, d])"
    by (simp add: a_def b_def c_def d_def)
  have m: "mset [a, d, b, c] = mset [b, c, a, d]" by (simp add: add.commute add.left_commute)
  note t = rank_is_total_and_deterministic [of "[b, c, a, d]" a a "[a, d, b, c]"
      "\<lambda>q. [snd b, snd a]" "''joe''" "\<lambda>q. [snd a, snd b]" "\<lambda>q p. 1" 2]
  have p: "rank [a, d, b, c] = rank [b, c, a, d]"
    using t dist m by blast
  have q: "ranks_before a a" using t by blast
  have "distinct (map place_id [snd b, snd a])" "mset [snd a, snd b] = mset [snd b, snd a]"
    by (simp_all add: a_def b_def)
  then have s: "search (\<lambda>q. [snd a, snd b]) (\<lambda>q p. 1) ''joe'' 2
      = search (\<lambda>q. [snd b, snd a]) (\<lambda>q p. 1) ''joe'' 2"
    using t by blast
  from r p q s show ?thesis unfolding a_def b_def c_def d_def by simp
qed
end
